theory Spec2Isabelle
  imports Main "HOL-Library.Word"
begin

unbundle bit_operations_syntax

section \<open>Rift tracker: tracked devices and pose delay slots\<close>

text \<open>
  The embedding follows the tracker source and \<^verbatim>\<open>sensor/uvc.c\<close>.  C structs are records,
  fixed-size C arrays are lists of that size, a pointer into \<^verbatim>\<open>delay_slots\<close> is the index
  of the slot, \<^verbatim>\<open>uint32_t\<close> and \<^verbatim>\<open>uint64_t\<close> are words, and the C \<^verbatim>\<open>int\<close> counters are
  integers.  Floating-point data (vectors, quaternions) is only stored and handed on by the
  functions modelled here, so it is kept abstract as the type variables \<open>'v\<close> (\<^verbatim>\<open>vec3f\<close>) and
  \<open>'q\<close> (\<^verbatim>\<open>quatf\<close>).  The field \<^verbatim>\<open>device_time_ns\<close> exists in three structs; the delay slot's
  is \<open>slot_device_time_ns\<close> and the exposure info's is \<open>info_device_time_ns\<close>.
\<close>

type_synonym u32 = "32 word"
type_synonym u64 = "64 word"

definition NUM_POSE_DELAY_SLOTS :: nat where
  "NUM_POSE_DELAY_SLOTS = 3"

definition POSE_LOST_THRESHOLD :: u64 where
  "POSE_LOST_THRESHOLD = 500"

definition POSE_LOST_ORIENT_THRESHOLD :: u64 where
  "POSE_LOST_ORIENT_THRESHOLD = 100"

record ('v, 'q) posef =
  pos :: 'v
  orient :: 'q

text \<open>
  The score's match flags.  \<^verbatim>\<open>POSE_HAS_FLAGS\<close> and the flag constants are declared in a header
  that is not among the sources (the pose helper header present has no flag field); the
  bit mask is a set of flags and the macro tests membership.
\<close>

datatype pose_flag = RIFT_POSE_MATCH_POSITION | RIFT_POSE_MATCH_ORIENT

record rift_pose_metrics =
  match_flags :: "pose_flag set"

definition POSE_HAS_FLAGS :: "rift_pose_metrics \<Rightarrow> pose_flag \<Rightarrow> bool" where
  "POSE_HAS_FLAGS sc f = (f \<in> match_flags sc)"

record ('v, 'q) rift_tracker_pose_report =
  report_used :: bool
  pose :: "('v, 'q) posef"
  score :: rift_pose_metrics

record ('v, 'q) rift_tracker_pose_delay_slot =
  slot_id :: int
  valid :: bool
  use_count :: int
  slot_device_time_ns :: u64
  n_pose_reports :: int
  pose_reports :: "('v, 'q) rift_tracker_pose_report list"
  n_used_reports :: int

text \<open>
  The Kalman filter is external.  Its state is the sequence of state-changing calls made
  on it, oldest first; its queries are parameters of the functions that use them.
\<close>

datatype ('v, 'q) kalman_call =
    Imu_update u64 'v 'v 'v
  | Pose_update u64 "('v, 'q) posef" int
  | Position_update u64 'v int
  | Prepare_delay_slot u64 int
  | Release_delay_slot int

record ('v, 'q) rift_tracked_device_priv =
  index :: nat
  ukf_fusion :: "('v, 'q) kalman_call list"
  delay_slot_index :: nat
  delay_slots :: "('v, 'q) rift_tracker_pose_delay_slot list"
  device_from_fusion :: "('v, 'q) posef"
  fusion_from_model :: "('v, 'q) posef"
  model_from_fusion :: "('v, 'q) posef"
  last_device_ts :: u32
  device_time_ns :: u64
  last_observed_orient_ts :: u64
  last_observed_pose_ts :: u64
  last_observed_pose :: "('v, 'q) posef"
  last_reported_pose :: u64
  reported_pose :: "('v, 'q) posef"
  model_pose :: "('v, 'q) posef"
  num_pending_imu_observations :: nat

record ('v, 'q) rift_tracked_device_exposure_info =
  info_device_time_ns :: u64
  fusion_slot :: int
  had_pose_lock :: bool
  capture_pose :: "('v, 'q) posef"
  pos_error :: 'v
  rot_error :: 'v

record ('v, 'q) rift_tracker_exposure_info =
  n_devices :: nat
  devices :: "('v, 'q) rift_tracked_device_exposure_info list"

text \<open>
  The maths helpers and the filter's queries, none of them among the sources, are
  parameters.  \<^verbatim>\<open>rift_kalman_6dof_get_pose_at\<close> has six out-parameters: the pose, the linear
  velocity, the acceleration, the angular velocity and the position and rotation errors;
  a caller passes a null pointer for those it does not want.  \<open>vec3f_zero\<close> is the vector
  with all three components \<^verbatim>\<open>0.0\<close>.
\<close>

record ('v, 'q) tracker_ext =
  oposef_apply :: "('v, 'q) posef \<Rightarrow> ('v, 'q) posef \<Rightarrow> ('v, 'q) posef"
  oquatf_get_rotated :: "'q \<Rightarrow> 'v \<Rightarrow> 'v"
  oquatf_get_rotated_abs :: "'q \<Rightarrow> 'v \<Rightarrow> 'v"
  ovec3f_cross :: "'v \<Rightarrow> 'v \<Rightarrow> 'v"
  ovec3f_add :: "'v \<Rightarrow> 'v \<Rightarrow> 'v"
  vec3f_zero :: 'v
  rift_kalman_6dof_get_pose_at ::
    "('v, 'q) kalman_call list \<Rightarrow> u64 \<Rightarrow> ('v, 'q) posef \<times> 'v \<times> 'v \<times> 'v \<times> 'v \<times> 'v"

definition RIFT_MAX_PENDING_IMU_OBSERVATIONS :: nat where
  "RIFT_MAX_PENDING_IMU_OBSERVATIONS = 1000"

text \<open>
  \<^verbatim>\<open>rift_tracked_device_send_imu_debug\<close> writes the pending observations to the debug sinks
  and empties the ring; only the count is part of the state here.
\<close>

definition rift_tracked_device_send_imu_debug ::
  "('v, 'q) rift_tracked_device_priv \<Rightarrow> ('v, 'q) rift_tracked_device_priv" where
  "rift_tracked_device_send_imu_debug dev =
     (if num_pending_imu_observations dev = 0 then dev
      else dev\<lparr>num_pending_imu_observations := 0\<rparr>)"

text \<open>
  \<^verbatim>\<open>rift_tracked_device_imu_update\<close>.  Both products are \<^verbatim>\<open>uint32_t * int\<close>, computed in 32
  bits and only then widened to the 64-bit clock.
\<close>

definition rift_tracked_device_imu_update ::
  "('v, 'q) rift_tracked_device_priv \<Rightarrow> u32 \<Rightarrow> 'v \<Rightarrow> 'v \<Rightarrow> 'v \<Rightarrow>
   ('v, 'q) rift_tracked_device_priv" where
  "rift_tracked_device_imu_update dev device_ts ang_vel accel mag_field =
     (let t = (if device_time_ns dev = 0 then ucast (device_ts * 1000)
               else device_time_ns dev + ucast ((device_ts - last_device_ts dev) * 1000));
          dev1 = dev\<lparr>device_time_ns := t, last_device_ts := device_ts\<rparr>;
          dev2 = dev1\<lparr>ukf_fusion := ukf_fusion dev1 @ [Imu_update t ang_vel accel mag_field]\<rparr>;
          dev3 = dev2\<lparr>num_pending_imu_observations := num_pending_imu_observations dev2 + 1\<rparr>
      in if num_pending_imu_observations dev3 = RIFT_MAX_PENDING_IMU_OBSERVATIONS
         then rift_tracked_device_send_imu_debug dev3 else dev3)"

text \<open>
  \<^verbatim>\<open>rift_tracked_device_get_view_pose\<close>.  The exponential output filter is external:
  \<open>exp_filter_pose_run\<close> takes the filter state, the time, the input pose and the prior
  content of the output pose, and returns the new filter state and the output pose.  The
  filter state is a field of the device in C; here it is passed and returned beside the
  device.  The result holds the device, the filter state, and the pose, velocity,
  acceleration and angular velocity written through the four out-pointers.  The maths
  helpers take their output last, so the final call
  \<^verbatim>\<open>ovec3f_add(vel, vel, &extra_lin_vel)\<close> stores the sum in the local \<^verbatim>\<open>extra_lin_vel\<close>
  (here \<open>extra_lin_vel1\<close>) and \<^verbatim>\<open>*vel\<close> stays the rotated velocity.
\<close>

definition rift_tracked_device_get_view_pose ::
  "('v, 'q) tracker_ext \<Rightarrow>
   ('f \<Rightarrow> u64 \<Rightarrow> ('v, 'q) posef \<Rightarrow> ('v, 'q) posef \<Rightarrow> 'f \<times> ('v, 'q) posef) \<Rightarrow>
   ('v, 'q) rift_tracked_device_priv \<Rightarrow> 'f \<Rightarrow>
   ('v, 'q) rift_tracked_device_priv \<times> 'f \<times> ('v, 'q) posef \<times> 'v \<times> 'v \<times> 'v" where
  "rift_tracked_device_get_view_pose ext exp_filter_pose_run dev filt =
     (case rift_kalman_6dof_get_pose_at ext (ukf_fusion dev) (device_time_ns dev) of
        (imu_global_pose, imu_vel0, imu_accel0, imu_ang_vel, pe, re) \<Rightarrow>
          (case (if device_time_ns dev > last_reported_pose dev then
                   (let device_pose = oposef_apply ext (device_from_fusion dev) imu_global_pose;
                        dev1 = dev\<lparr>reported_pose :=
                                     (reported_pose dev)\<lparr>orient := orient device_pose\<rparr>\<rparr>;
                        lost = (device_time_ns dev1 - last_observed_pose_ts dev1
                                  \<ge> POSE_LOST_THRESHOLD * 1000000);
                        device_pose1 = (if lost
                                        then device_pose\<lparr>pos := pos (reported_pose dev1)\<rparr>
                                        else device_pose);
                        imu_vel = (if lost then vec3f_zero ext else imu_vel0);
                        imu_accel = (if lost then vec3f_zero ext else imu_accel0)
                    in case exp_filter_pose_run filt (device_time_ns dev1) device_pose1
                              (reported_pose dev1) of
                         (filt1, out_pose) \<Rightarrow>
                           (dev1\<lparr>reported_pose := out_pose,
                                 last_reported_pose := device_time_ns dev1\<rparr>,
                            filt1, imu_vel, imu_accel))
                 else (dev, filt, imu_vel0, imu_accel0)) of
             (dev2, filt2, imu_vel, imu_accel) \<Rightarrow>
               (let q = orient (device_from_fusion dev2);
                    device_ang_vel = oquatf_get_rotated ext q imu_ang_vel;
                    accel = oquatf_get_rotated ext q imu_accel;
                    rotated_imu_pos = oquatf_get_rotated ext q (pos (device_from_fusion dev2));
                    extra_lin_vel = ovec3f_cross ext device_ang_vel rotated_imu_pos;
                    vel = oquatf_get_rotated ext q imu_vel;
                    extra_lin_vel1 = ovec3f_add ext vel vel
                in (dev2, filt2, reported_pose dev2, vel, accel, device_ang_vel))))"

text \<open>
  \<^verbatim>\<open>find_free_delay_slot\<close>: the loop runs \<^verbatim>\<open>NUM_POSE_DELAY_SLOTS\<close> times, each time reading
  the slot under the cursor and moving the cursor on before testing the slot.
\<close>

fun find_free_loop ::
  "nat \<Rightarrow> ('v, 'q) rift_tracked_device_priv \<Rightarrow> nat option \<times> ('v, 'q) rift_tracked_device_priv" where
  "find_free_loop 0 dev = (None, dev)"
| "find_free_loop (Suc n) dev =
     (let slot_no = delay_slot_index dev;
          dev1 = dev\<lparr>delay_slot_index := (slot_no + 1) mod NUM_POSE_DELAY_SLOTS\<rparr>
      in if use_count (delay_slots dev ! slot_no) = 0 then (Some slot_no, dev1)
         else find_free_loop n dev1)"

definition find_free_delay_slot ::
  "('v, 'q) rift_tracked_device_priv \<Rightarrow> nat option \<times> ('v, 'q) rift_tracked_device_priv" where
  "find_free_delay_slot dev = find_free_loop NUM_POSE_DELAY_SLOTS dev"

text \<open>\<^verbatim>\<open>reclaim_delay_slot\<close>: the first index, counting up from 0, of a slot that is valid
  and has used reports.\<close>

definition reclaim_delay_slot :: "('v, 'q) rift_tracked_device_priv \<Rightarrow> nat option" where
  "reclaim_delay_slot dev =
     find (\<lambda>i. valid (delay_slots dev ! i) \<and> n_used_reports (delay_slots dev ! i) > 0)
       [0..<NUM_POSE_DELAY_SLOTS]"

definition get_matching_delay_slot ::
  "('v, 'q) rift_tracked_device_priv \<Rightarrow> ('v, 'q) rift_tracked_device_exposure_info \<Rightarrow> nat option" where
  "get_matching_delay_slot dev dev_info =
     (let slot_no = fusion_slot dev_info
      in if 0 \<le> slot_no \<and> slot_no < int NUM_POSE_DELAY_SLOTS
            \<and> valid (delay_slots dev ! nat slot_no)
            \<and> slot_device_time_ns (delay_slots dev ! nat slot_no) = info_device_time_ns dev_info
         then Some (nat slot_no) else None)"

text \<open>\<^verbatim>\<open>rift_tracked_device_get_model_pose_locked\<close>: returns the device with its model pose
  refreshed, and the pose and the two error vectors written through the out pointers.\<close>

definition rift_tracked_device_get_model_pose_locked ::
  "('v, 'q) tracker_ext \<Rightarrow> ('v, 'q) rift_tracked_device_priv \<Rightarrow>
   ('v, 'q) rift_tracked_device_priv \<times> ('v, 'q) posef \<times> 'v \<times> 'v" where
  "rift_tracked_device_get_model_pose_locked ext dev =
     (case rift_kalman_6dof_get_pose_at ext (ukf_fusion dev) (device_time_ns dev) of
        (imu_global_pose, imu_vel, imu_accel, imu_ang_vel, global_pos_error, global_rot_error) \<Rightarrow>
          (let mp = oposef_apply ext (model_from_fusion dev) imu_global_pose;
               pe = oquatf_get_rotated_abs ext (orient (model_from_fusion dev)) global_pos_error;
               re = oquatf_get_rotated_abs ext (orient (model_from_fusion dev)) global_rot_error;
               dev1 = dev\<lparr>model_pose := (model_pose dev)\<lparr>orient := orient mp\<rparr>\<rparr>;
               dev2 = (if device_time_ns dev1 - last_observed_pose_ts dev1
                          < POSE_LOST_THRESHOLD * 1000000
                       then dev1\<lparr>model_pose := (model_pose dev1)\<lparr>pos := pos mp\<rparr>\<rparr>
                       else dev1)
           in (dev2, model_pose dev2, pe, re)))"

text \<open>\<^verbatim>\<open>rift_tracked_device_on_new_exposure\<close>.\<close>

definition rift_tracked_device_on_new_exposure ::
  "('v, 'q) tracker_ext \<Rightarrow> ('v, 'q) rift_tracked_device_priv \<Rightarrow>
   ('v, 'q) rift_tracked_device_exposure_info \<Rightarrow>
   ('v, 'q) rift_tracked_device_priv \<times> ('v, 'q) rift_tracked_device_exposure_info" where
  "rift_tracked_device_on_new_exposure ext dev dev_info =
     (case find_free_delay_slot dev of (found, dev1) \<Rightarrow>
       (let info1 = dev_info\<lparr>info_device_time_ns := device_time_ns dev1\<rparr>;
            chosen = (case found of None \<Rightarrow> reclaim_delay_slot dev1 | Some i \<Rightarrow> Some i)
        in case chosen of
             Some i \<Rightarrow>
               (let slot = (delay_slots dev1 ! i)
                      \<lparr>valid := True, use_count := 0,
                       slot_device_time_ns := info_device_time_ns info1,
                       n_pose_reports := 0, n_used_reports := 0\<rparr>;
                    dev2 = dev1\<lparr>delay_slots := (delay_slots dev1)[i := slot]\<rparr>;
                    info2 = info1\<lparr>fusion_slot := slot_id slot,
                              had_pose_lock :=
                                (device_time_ns dev2 - last_observed_pose_ts dev2
                                   < POSE_LOST_THRESHOLD * 1000000)\<rparr>
                in case rift_tracked_device_get_model_pose_locked ext dev2 of
                     (dev3, cp, pe, re) \<Rightarrow>
                       (dev3\<lparr>ukf_fusion := ukf_fusion dev3 @
                               [Prepare_delay_slot (info_device_time_ns info2) (slot_id slot)]\<rparr>,
                        info2\<lparr>capture_pose := cp, pos_error := pe, rot_error := re\<rparr>))
           | None \<Rightarrow> (dev1, info1\<lparr>fusion_slot := - 1\<rparr>)))"

text \<open>\<^verbatim>\<open>rift_tracked_device_exposure_claim\<close> and
  \<^verbatim>\<open>rift_tracked_device_exposure_release_locked\<close>.\<close>

definition rift_tracked_device_exposure_claim ::
  "('v, 'q) rift_tracked_device_priv \<Rightarrow> ('v, 'q) rift_tracked_device_exposure_info \<Rightarrow>
   ('v, 'q) rift_tracked_device_priv \<times> ('v, 'q) rift_tracked_device_exposure_info" where
  "rift_tracked_device_exposure_claim dev dev_info =
     (case get_matching_delay_slot dev dev_info of
        Some i \<Rightarrow>
          (let slot = delay_slots dev ! i;
               slot1 = slot\<lparr>use_count := use_count slot + 1\<rparr>
           in (dev\<lparr>delay_slots := (delay_slots dev)[i := slot1]\<rparr>,
               dev_info\<lparr>fusion_slot := slot_id slot1\<rparr>))
      | None \<Rightarrow>
          (dev, if fusion_slot dev_info \<noteq> - 1 then dev_info\<lparr>fusion_slot := - 1\<rparr>
                else dev_info))"

definition rift_tracked_device_exposure_release_locked ::
  "('v, 'q) rift_tracked_device_priv \<Rightarrow> ('v, 'q) rift_tracked_device_exposure_info \<Rightarrow>
   ('v, 'q) rift_tracked_device_priv \<times> ('v, 'q) rift_tracked_device_exposure_info" where
  "rift_tracked_device_exposure_release_locked dev dev_info =
     (case get_matching_delay_slot dev dev_info of
        Some i \<Rightarrow>
          (let slot = delay_slots dev ! i;
               slot1 = (if use_count slot > 0 then slot\<lparr>use_count := use_count slot - 1\<rparr>
                        else slot);
               released = (use_count slot1 = 0);
               slot2 = (if released then slot1\<lparr>valid := False\<rparr> else slot1);
               ukf = (if released then ukf_fusion dev @ [Release_delay_slot (slot_id slot1)]
                      else ukf_fusion dev)
           in (dev\<lparr>ukf_fusion := ukf, delay_slots := (delay_slots dev)[i := slot2]\<rparr>,
               dev_info\<lparr>fusion_slot := - 1\<rparr>))
      | None \<Rightarrow> (dev, dev_info))"

text \<open>
  \<^verbatim>\<open>rift_tracked_device_model_pose_update\<close>.  \<open>update_position\<close> and \<open>update_orientation\<close>
  are the values the two locals of that name hold once both gates have been evaluated, for
  a report whose delay slot matched.  \<^verbatim>\<open>RIFT_MAX_SENSORS\<close> is defined in a header that is not
  among the sources and is the parameter \<open>max_sensors\<close>.
\<close>

definition update_position ::
  "('v, 'q) rift_tracked_device_priv \<Rightarrow> ('v, 'q) rift_tracked_device_exposure_info \<Rightarrow>
   rift_pose_metrics \<Rightarrow> bool" where
  "update_position dev dev_info sc =
     (if had_pose_lock dev_info \<and> \<not> POSE_HAS_FLAGS sc RIFT_POSE_MATCH_POSITION
         \<and> last_observed_pose_ts dev > info_device_time_ns dev_info
      then False else True)"

definition update_orientation ::
  "('v, 'q) rift_tracked_device_priv \<Rightarrow> rift_pose_metrics \<Rightarrow> bool" where
  "update_orientation dev sc =
     (if POSE_HAS_FLAGS sc RIFT_POSE_MATCH_ORIENT then True
      else if device_time_ns dev - last_observed_pose_ts dev
                > POSE_LOST_ORIENT_THRESHOLD * 1000000 then True
      else False)"

definition rift_tracked_device_model_pose_update ::
  "('v, 'q) tracker_ext \<Rightarrow> nat \<Rightarrow> ('v, 'q) rift_tracked_device_priv \<Rightarrow>
   ('v, 'q) rift_tracker_exposure_info \<Rightarrow> rift_pose_metrics \<Rightarrow> ('v, 'q) posef \<Rightarrow>
   ('v, 'q) rift_tracked_device_priv \<times> bool" where
  "rift_tracked_device_model_pose_update ext max_sensors dev0 exposure_info sc mpose =
     (let imu_pose = oposef_apply ext (fusion_from_model dev0) mpose;
          dev = rift_tracked_device_send_imu_debug dev0
      in if index dev < n_devices exposure_info then
           (let dev_info = devices exposure_info ! index dev
            in case get_matching_delay_slot dev dev_info of
                 None \<Rightarrow> (dev, False)
               | Some i \<Rightarrow>
                   (let up_pos = update_position dev dev_info sc;
                        up_orient = update_orientation dev sc;
                        dev1 = (if POSE_HAS_FLAGS sc RIFT_POSE_MATCH_ORIENT \<and> up_pos
                                then dev\<lparr>last_observed_orient_ts := device_time_ns dev\<rparr>
                                else dev);
                        slot = delay_slots dev1 ! i;
                        dev2 = (if up_pos
                                then dev1\<lparr>ukf_fusion := ukf_fusion dev1 @
                                            [if up_orient
                                             then Pose_update (device_time_ns dev1) imu_pose
                                                    (slot_id slot)
                                             else Position_update (device_time_ns dev1)
                                                    (pos imu_pose) (slot_id slot)],
                                          last_observed_pose_ts := device_time_ns dev1,
                                          last_observed_pose := imu_pose\<rparr>
                                else dev1);
                        slot1 = (if n_pose_reports slot < int max_sensors
                                 then slot\<lparr>pose_reports := (pose_reports slot)
                                              [nat (n_pose_reports slot) :=
                                                 \<lparr>report_used = up_pos, pose = imu_pose,
                                                  score = sc\<rparr>],
                                            n_used_reports := (if up_pos
                                                               then n_used_reports slot + 1
                                                               else n_used_reports slot),
                                            n_pose_reports := n_pose_reports slot + 1\<rparr>
                                 else slot)
                    in (dev2\<lparr>delay_slots := (delay_slots dev2)[i := slot1]\<rparr>,
                        up_pos \<or> up_orient)))
         else (dev, False))"

text \<open>
  The bookkeeping invariant of a device: three slots, the cursor inside the array, and
  every slot carrying its own index, as \<^verbatim>\<open>rift_tracker_add_device\<close> sets it up.
\<close>

definition wf_device :: "('v, 'q) rift_tracked_device_priv \<Rightarrow> bool" where
  "wf_device dev =
     (length (delay_slots dev) = NUM_POSE_DELAY_SLOTS \<and>
      delay_slot_index dev < NUM_POSE_DELAY_SLOTS \<and>
      list_all (\<lambda>i. slot_id (delay_slots dev ! i) = int i) [0..<NUM_POSE_DELAY_SLOTS])"

text \<open>
  A device as \<^verbatim>\<open>rift_tracker_add_device\<close> leaves its bookkeeping: timestamps 0, the slots
  numbered and invalid, everything else as the zeroed allocation has it.  All poses are
  set to \<open>p\<close>; each slot has room for \<open>max_sensors\<close> reports.
\<close>

definition fresh_device ::
  "nat \<Rightarrow> nat \<Rightarrow> ('v, 'q) posef \<Rightarrow> ('v, 'q) rift_tracked_device_priv" where
  "fresh_device idx max_sensors p =
     \<lparr>index = idx, ukf_fusion = [], delay_slot_index = 0,
      delay_slots =
        map (\<lambda>s. \<lparr>slot_id = int s, valid = False, use_count = 0, slot_device_time_ns = 0,
                  n_pose_reports = 0,
                  pose_reports = replicate max_sensors
                    \<lparr>report_used = False, pose = p, score = \<lparr>match_flags = {}\<rparr>\<rparr>,
                  n_used_reports = 0\<rparr>) [0..<NUM_POSE_DELAY_SLOTS],
      device_from_fusion = p, fusion_from_model = p, model_from_fusion = p,
      last_device_ts = 0, device_time_ns = 0, last_observed_orient_ts = 0,
      last_observed_pose_ts = 0, last_observed_pose = p, last_reported_pose = 0,
      reported_pose = p, model_pose = p, num_pending_imu_observations = 0\<rparr>"

text \<open>Releasing the same exposure \<open>n\<close> times, each caller holding its own copy of the
  exposure info.\<close>

primrec release_times ::
  "nat \<Rightarrow> ('v, 'q) rift_tracked_device_priv \<Rightarrow> ('v, 'q) rift_tracked_device_exposure_info \<Rightarrow>
   ('v, 'q) rift_tracked_device_priv" where
  "release_times 0 dev dev_info = dev"
| "release_times (Suc n) dev dev_info =
     release_times n (fst (rift_tracked_device_exposure_release_locked dev dev_info)) dev_info"

section \<open>UVC stream assembler\<close>

text \<open>
  \<^verbatim>\<open>process_payload\<close> of \<^verbatim>\<open>sensor/uvc.c\<close>.  The stream struct is declared in a header that
  is not among the sources; its fields are taken from their uses.  Byte counts
  (\<^verbatim>\<open>frame_size\<close>, \<^verbatim>\<open>frame_collected\<close>, \<^verbatim>\<open>data_size\<close>) are natural numbers, the local
  \<^verbatim>\<open>payload_len\<close> is the C \<^verbatim>\<open>int\<close> it is declared as.  A frame buffer is a map from byte
  offset to byte.  \<^verbatim>\<open>free_frames\<close> is the array and \<^verbatim>\<open>n_free_frames\<close> the number of its
  entries in use.  The frame's \<^verbatim>\<open>stride\<close>, \<^verbatim>\<open>width\<close> and \<^verbatim>\<open>height\<close> are prefixed with
  \<open>frame_\<close>, the stream has fields of the same names.  The frame callback is a function
  pointer stored in the stream; it is the parameter \<open>frame_cb\<close>, \<open>None\<close> for a null
  pointer, and may change the stream it is handed.  \<open>now\<close> is the reading of the
  monotonic clock.
\<close>

type_synonym u8 = "8 word"

record ohmd_video_frame =
  data :: "nat \<Rightarrow> u8"
  data_size :: nat
  start_ts :: u64
  pts :: u32
  frame_stride :: int
  frame_width :: int
  frame_height :: int

record rift_sensor_uvc_stream =
  free_frames :: "ohmd_video_frame list"
  n_free_frames :: int
  stride :: int
  width :: int
  height :: int
  cur_pts :: u32
  frame_id :: int
  frame_size :: nat
  frame_collected :: nat
  skip_frame :: bool
  cur_frame :: "ohmd_video_frame option"

text \<open>The fields of the packed, little-endian \<^verbatim>\<open>uvc_payload_header\<close> that the function
  reads, at their byte offsets in the payload buffer.\<close>

definition bHeaderLength :: "u8 list \<Rightarrow> u8" where
  "bHeaderLength payload = payload ! 0"

definition bmHeaderInfo :: "u8 list \<Rightarrow> u8" where
  "bmHeaderInfo payload = payload ! 1"

definition dwPresentationTime :: "u8 list \<Rightarrow> u32" where
  "dwPresentationTime payload =
     ucast (payload ! 2) OR push_bit 8 (ucast (payload ! 3))
       OR push_bit 16 (ucast (payload ! 4)) OR push_bit 24 (ucast (payload ! 5))"

text \<open>A failed \<^verbatim>\<open>assert\<close> aborts; a \<^verbatim>\<open>memcpy\<close> with a negative \<^verbatim>\<open>int\<close> length is
  undefined.  Both end the function without a stream state.\<close>

datatype uvc_fault = Assertion_failed | Memcpy_negative_length

text \<open>The block that starts a new frame when the parity bit differs from the stream's
  \<^verbatim>\<open>frame_id\<close>.\<close>

definition payload_frame_start ::
  "u64 \<Rightarrow> int \<Rightarrow> u32 \<Rightarrow> rift_sensor_uvc_stream \<Rightarrow> uvc_fault + rift_sensor_uvc_stream" where
  "payload_frame_start now fid pts_val stream =
     (if fid \<noteq> frame_id stream then
        (let s1 = (if cur_frame stream = None then
                     (if n_free_frames stream > 0
                      then stream\<lparr>n_free_frames := n_free_frames stream - 1,
                                  cur_frame := Some (free_frames stream !
                                                       nat (n_free_frames stream - 1))\<rparr>
                      else stream\<lparr>cur_frame := None\<rparr>)
                   else stream);
             s2 = s1\<lparr>frame_id := fid, cur_pts := pts_val, frame_collected := 0,
                     skip_frame := False\<rparr>;
             s3 = (if cur_frame s2 = None then s2\<lparr>skip_frame := True\<rparr> else s2)
         in case cur_frame s3 of
              None \<Rightarrow> Inr s3
            | Some frame \<Rightarrow>
                if data_size frame \<noteq> frame_size s3 then Inl Assertion_failed
                else Inr (s3\<lparr>cur_frame := Some (frame\<lparr>start_ts := now, pts := pts_val,
                                                        frame_stride := stride s3,
                                                        frame_width := width s3,
                                                        frame_height := height s3\<rparr>)\<rparr>))
      else Inr stream)"

text \<open>The rest of the function: the skip test, the overflow test, the copy of the payload
  body (which starts at offset 12 of the buffer), frame completion and the EOF reset.\<close>

definition payload_collect ::
  "(rift_sensor_uvc_stream \<Rightarrow> ohmd_video_frame \<Rightarrow> rift_sensor_uvc_stream) option \<Rightarrow>
   rift_sensor_uvc_stream \<Rightarrow> u8 list \<Rightarrow> int \<Rightarrow> bool \<Rightarrow> uvc_fault + rift_sensor_uvc_stream" where
  "payload_collect frame_cb stream payload payload_len is_eof =
     (case cur_frame stream of
        None \<Rightarrow> Inr stream
      | Some frame \<Rightarrow>
          if skip_frame stream then Inr stream
          else if int (frame_collected stream) + payload_len > int (frame_size stream)
          then Inr stream
          else if payload_len < 0 then Inl Memcpy_negative_length
          else
            (let n = nat payload_len;
                 off = frame_collected stream;
                 frame1 = frame\<lparr>data := (\<lambda>k. if off \<le> k \<and> k < off + n
                                              then payload ! (12 + (k - off))
                                              else data frame k)\<rparr>;
                 s1 = stream\<lparr>cur_frame := Some frame1, frame_collected := off + n\<rparr>;
                 s2 = (if frame_collected s1 = frame_size s1
                       then (case frame_cb of
                               Some cb \<Rightarrow> (cb s1 frame1)\<lparr>cur_frame := None\<rparr>
                             | None \<Rightarrow> s1)\<lparr>frame_collected := 0\<rparr>
                       else s1)
             in Inr (if is_eof then s2\<lparr>frame_collected := 0\<rparr> else s2)))"

definition process_payload ::
  "(rift_sensor_uvc_stream \<Rightarrow> ohmd_video_frame \<Rightarrow> rift_sensor_uvc_stream) option \<Rightarrow>
   u64 \<Rightarrow> rift_sensor_uvc_stream \<Rightarrow> u8 list \<Rightarrow> nat \<Rightarrow> uvc_fault + rift_sensor_uvc_stream" where
  "process_payload frame_cb now stream payload len =
     (if len = 0 then Inr stream
      else if len = 12 then Inr stream
      else if bHeaderLength payload \<noteq> 12 then Inr stream
      else
        (let payload_len = int len - uint (bHeaderLength payload);
             fid = uint (bmHeaderInfo payload AND 0x01);
             is_eof = (bmHeaderInfo payload AND 0x02 \<noteq> 0);
             have_pts = (bmHeaderInfo payload AND 0x04 \<noteq> 0);
             error = (bmHeaderInfo payload AND 0x40 \<noteq> 0)
         in if error then Inr stream
            else
              (let pts_val = (if have_pts then dwPresentationTime payload else - 1);
                   s1 = (if have_pts \<and> frame_collected stream \<noteq> 0
                            \<and> pts_val \<noteq> cur_pts stream
                         then stream\<lparr>cur_pts := pts_val\<rparr> else stream)
               in case payload_frame_start now fid pts_val s1 of
                    Inl e \<Rightarrow> Inl e
                  | Inr s2 \<Rightarrow> payload_collect frame_cb s2 payload payload_len is_eof)))"

section \<open>Example states\<close>

text \<open>Concrete devices, exposures and streams at which the theorems below are instantiated.
  Where the floating-point data plays no part, the vector and quaternion types are
  \<open>unit\<close>.\<close>

definition unit_pose :: "(unit, unit) posef" where
  "unit_pose = \<lparr>pos = (), orient = ()\<rparr>"

text \<open>Example helpers over numbers: a vector or quaternion is one integer, rotation adds
  the quaternion, the filter reports position 70 with velocity 3, acceleration 4 and
  angular velocity 5, and the output filter averages its input position with the prior
  output.\<close>

definition example_ext :: "(unit, unit) tracker_ext" where
  "example_ext =
     \<lparr>oposef_apply = (\<lambda>a b. b), oquatf_get_rotated = (\<lambda>q v. v),
      oquatf_get_rotated_abs = (\<lambda>q v. v), ovec3f_cross = (\<lambda>a b. ()),
      ovec3f_add = (\<lambda>a b. ()), vec3f_zero = (),
      rift_kalman_6dof_get_pose_at = (\<lambda>calls t. (unit_pose, (), (), (), (), ()))\<rparr>"

definition int_ext :: "(int, int) tracker_ext" where
  "int_ext =
     \<lparr>oposef_apply = (\<lambda>a b. \<lparr>pos = pos a + pos b, orient = orient a + orient b\<rparr>),
      oquatf_get_rotated = (\<lambda>q v. q + v),
      oquatf_get_rotated_abs = (\<lambda>q v. q + v), ovec3f_cross = (\<lambda>a b. a * b),
      ovec3f_add = (\<lambda>a b. a + b), vec3f_zero = 0,
      rift_kalman_6dof_get_pose_at =
        (\<lambda>calls t. (\<lparr>pos = 70, orient = 9\<rparr>, 3, 4, 5, 0, 0))\<rparr>"

definition int_filter ::
  "int \<Rightarrow> u64 \<Rightarrow> (int, int) posef \<Rightarrow> (int, int) posef \<Rightarrow> int \<times> (int, int) posef" where
  "int_filter f t p out_prev =
     (f + 1, \<lparr>pos = (pos p + pos out_prev) div 2, orient = orient p\<rparr>)"

definition int_device :: "u64 \<Rightarrow> u64 \<Rightarrow> u64 \<Rightarrow> (int, int) rift_tracked_device_priv" where
  "int_device t t_reported t_pose =
     (fresh_device 0 4 \<lparr>pos = 10, orient = 1\<rparr>)
       \<lparr>device_time_ns := t, last_reported_pose := t_reported, last_observed_pose_ts := t_pose\<rparr>"

definition example_slot ::
  "int \<Rightarrow> int \<Rightarrow> bool \<Rightarrow> u64 \<Rightarrow> int \<Rightarrow> int \<Rightarrow> (unit, unit) rift_tracker_pose_delay_slot" where
  "example_slot sid uc v t n_reports n_used =
     \<lparr>slot_id = sid, valid = v, use_count = uc, slot_device_time_ns = t,
      n_pose_reports = n_reports,
      pose_reports = replicate 4 \<lparr>report_used = False, pose = unit_pose,
                                  score = \<lparr>match_flags = {}\<rparr>\<rparr>,
      n_used_reports = n_used\<rparr>"

definition example_device ::
  "nat \<Rightarrow> u64 \<Rightarrow> u64 \<Rightarrow> (unit, unit) rift_tracker_pose_delay_slot list \<Rightarrow>
   (unit, unit) rift_tracked_device_priv" where
  "example_device cursor t t_pose slots =
     (fresh_device 0 4 unit_pose)
       \<lparr>delay_slot_index := cursor, delay_slots := slots, device_time_ns := t,
        last_observed_pose_ts := t_pose\<rparr>"

definition example_dev_info ::
  "u64 \<Rightarrow> int \<Rightarrow> bool \<Rightarrow> (unit, unit) rift_tracked_device_exposure_info" where
  "example_dev_info t slot_no lock =
     \<lparr>info_device_time_ns = t, fusion_slot = slot_no, had_pose_lock = lock,
      capture_pose = unit_pose, pos_error = (), rot_error = ()\<rparr>"

definition example_exposure ::
  "u64 \<Rightarrow> int \<Rightarrow> bool \<Rightarrow> (unit, unit) rift_tracker_exposure_info" where
  "example_exposure t slot_no lock =
     \<lparr>n_devices = 1, devices = [example_dev_info t slot_no lock]\<rparr>"

text \<open>A stream is well formed when its free-frame count stays within the array and every
  frame it holds has a buffer of \<^verbatim>\<open>frame_size\<close> bytes, as \<^verbatim>\<open>rift_sensor_uvc_stream_start\<close>
  allocates them.\<close>

definition wf_stream :: "rift_sensor_uvc_stream \<Rightarrow> bool" where
  "wf_stream stream =
     (0 \<le> n_free_frames stream \<and> nat (n_free_frames stream) \<le> length (free_frames stream)
      \<and> list_all (\<lambda>f. data_size f = frame_size stream) (free_frames stream)
      \<and> (case cur_frame stream of None \<Rightarrow> True
          | Some f \<Rightarrow> data_size f = frame_size stream))"

text \<open>A DK2 stream (752 x 480, frames of 360960 bytes) with one free frame, and a payload
  with a 12-byte header carrying the PTS 1000 followed by \<open>n\<close> body bytes.\<close>

definition example_frame :: ohmd_video_frame where
  "example_frame =
     \<lparr>data = (\<lambda>k. 0), data_size = 360960, start_ts = 0, pts = 0, frame_stride = 752,
      frame_width = 752, frame_height = 480\<rparr>"

definition example_stream ::
  "nat \<Rightarrow> bool \<Rightarrow> ohmd_video_frame option \<Rightarrow> rift_sensor_uvc_stream" where
  "example_stream collected skip cur =
     \<lparr>free_frames = [example_frame], n_free_frames = 1, stride = 752, width = 752,
      height = 480, cur_pts = 1000, frame_id = 0, frame_size = 360960,
      frame_collected = collected, skip_frame = skip, cur_frame = cur\<rparr>"

definition example_payload :: "u8 \<Rightarrow> nat \<Rightarrow> u8 list" where
  "example_payload info n = [12, info, 0xE8, 0x03, 0, 0, 0, 0, 0, 0, 0, 0] @ replicate n 0xAB"

section \<open>Properties of the tracker\<close>

subsection \<open>Auxiliary facts\<close>

lemma matching_SomeD:
  assumes "get_matching_delay_slot dev dev_info = Some i"
  shows "i = nat (fusion_slot dev_info)" "0 \<le> fusion_slot dev_info" "i < NUM_POSE_DELAY_SLOTS"
    "valid (delay_slots dev ! i)"
    "slot_device_time_ns (delay_slots dev ! i) = info_device_time_ns dev_info"
  using assms by (auto simp: get_matching_delay_slot_def Let_def split: if_splits)

lemma matching_invalid:
  assumes "\<not> valid (delay_slots dev ! nat (fusion_slot dev_info))"
  shows "get_matching_delay_slot dev dev_info = None"
  using assms by (simp add: get_matching_delay_slot_def Let_def)

lemma release_unmatched:
  "get_matching_delay_slot dev dev_info = None \<Longrightarrow>
   rift_tracked_device_exposure_release_locked dev dev_info = (dev, dev_info)"
  by (simp add: rift_tracked_device_exposure_release_locked_def)

lemma use_count_zero_update:
  "use_count r = 0 \<Longrightarrow> r\<lparr>use_count := 0\<rparr> = r"
  by (cases r) simp

lemma release_last:
  assumes m: "get_matching_delay_slot dev dev_info = Some i"
    and len: "length (delay_slots dev) = NUM_POSE_DELAY_SLOTS"
    and uc: "use_count (delay_slots dev ! i) = 0 \<or> use_count (delay_slots dev ! i) = 1"
  shows "fst (rift_tracked_device_exposure_release_locked dev dev_info) =
           dev\<lparr>ukf_fusion := ukf_fusion dev @ [Release_delay_slot (slot_id (delay_slots dev ! i))],
               delay_slots := (delay_slots dev)[i := (delay_slots dev ! i)\<lparr>use_count := 0, valid := False\<rparr>]\<rparr>"
  using uc by (auto simp: rift_tracked_device_exposure_release_locked_def m Let_def use_count_zero_update)

lemma release_more:
  assumes m: "get_matching_delay_slot dev dev_info = Some i"
    and uc: "use_count (delay_slots dev ! i) > 1"
  shows "fst (rift_tracked_device_exposure_release_locked dev dev_info) =
           dev\<lparr>delay_slots := (delay_slots dev)[i := (delay_slots dev ! i)\<lparr>use_count := use_count (delay_slots dev ! i) - 1\<rparr>]\<rparr>"
  using uc by (auto simp: rift_tracked_device_exposure_release_locked_def m Let_def)

lemma release_times_unmatched:
  "get_matching_delay_slot dev dev_info = None \<Longrightarrow> release_times n dev dev_info = dev"
  by (induction n) (simp_all add: release_unmatched)

lemma release_times_add:
  "release_times (m + n) dev dev_info = release_times n (release_times m dev dev_info) dev_info"
  by (induction m arbitrary: dev) simp_all

lemma release_times_exact:
  assumes "get_matching_delay_slot dev dev_info = Some i"
    and "length (delay_slots dev) = NUM_POSE_DELAY_SLOTS"
    and "use_count (delay_slots dev ! i) = int k"
  shows "release_times (max k 1) dev dev_info =
           dev\<lparr>ukf_fusion := ukf_fusion dev @ [Release_delay_slot (slot_id (delay_slots dev ! i))],
               delay_slots := (delay_slots dev)
                 [i := (delay_slots dev ! i)\<lparr>use_count := 0, valid := False\<rparr>]\<rparr>"
  using assms
proof (induction k arbitrary: dev)
  case 0
  then show ?case by (simp add: release_last)
next
  case (Suc k)
  show ?case
  proof (cases "k = 0")
    case True
    with Suc.prems show ?thesis by (simp add: release_last)
  next
    case False
    let ?d = "fst (rift_tracked_device_exposure_release_locked dev dev_info)"
    have i: "i < length (delay_slots dev)"
      using matching_SomeD(3) [OF Suc.prems(1)] Suc.prems(2) by simp
    have d: "?d = dev\<lparr>delay_slots := (delay_slots dev)[i := (delay_slots dev ! i)\<lparr>use_count := int k\<rparr>]\<rparr>"
      using Suc.prems False by (simp add: release_more)
    have m: "get_matching_delay_slot ?d dev_info = Some i"
      using Suc.prems(1) i matching_SomeD [OF Suc.prems(1)]
      by (simp add: d get_matching_delay_slot_def Let_def)
    have "release_times (max k 1) ?d dev_info =
            ?d\<lparr>ukf_fusion := ukf_fusion ?d @ [Release_delay_slot (slot_id (delay_slots ?d ! i))],
               delay_slots := (delay_slots ?d)
                 [i := (delay_slots ?d ! i)\<lparr>use_count := 0, valid := False\<rparr>]\<rparr>"
      using i Suc.prems(2) by (intro Suc.IH m) (simp_all add: d)
    moreover have "max (Suc k) 1 = Suc (max k 1)" using False by simp
    ultimately show ?thesis using i by (simp add: d)
  qed
qed


lemma mod3_shift: "(Suc c mod 3 + k) mod 3 = Suc (c + k) mod 3"
  by (simp add: mod_Suc_eq mod_add_left_eq flip: add_Suc)

lemma mod3_shift_Suc: "Suc (Suc c mod 3 + j) mod 3 = Suc (Suc (c + j)) mod 3"
  by (metis mod3_shift mod_Suc_eq add_Suc)

lemma find_free_loop_none:
  assumes "delay_slot_index dev < 3"
    and "\<forall>j<n. use_count (delay_slots dev ! ((delay_slot_index dev + j) mod 3)) \<noteq> 0"
  shows "find_free_loop n dev = (None, dev\<lparr>delay_slot_index := (delay_slot_index dev + n) mod 3\<rparr>)"
  using assms
proof (induction n arbitrary: dev)
  case 0
  then show ?case by simp
next
  case (Suc n)
  let ?c = "delay_slot_index dev"
  let ?d = "dev\<lparr>delay_slot_index := (?c + 1) mod 3\<rparr>"
  have c0: "use_count (delay_slots dev ! ?c) \<noteq> 0"
    using Suc.prems(1) Suc.prems(2) [rule_format, of 0] by simp
  have rest: "\<forall>j<n. use_count (delay_slots ?d ! ((delay_slot_index ?d + j) mod 3)) \<noteq> 0"
  proof (intro allI impI)
    fix j assume "j < n"
    then have "use_count (delay_slots dev ! ((?c + Suc j) mod 3)) \<noteq> 0"
      using Suc.prems(2) [rule_format, of "Suc j"] by simp
    moreover have "(Suc ?c mod 3 + j) mod 3 = Suc (?c + j) mod 3"
      by (rule mod3_shift)
    ultimately show "use_count (delay_slots ?d ! ((delay_slot_index ?d + j) mod 3)) \<noteq> 0"
      by simp
  qed
  have "find_free_loop n ?d = (None, ?d\<lparr>delay_slot_index := (delay_slot_index ?d + n) mod 3\<rparr>)"
    by (rule Suc.IH) (use rest in simp_all)
  moreover have "(Suc ?c mod 3 + n) mod 3 = Suc (?c + n) mod 3"
    by (rule mod3_shift)
  ultimately show ?case using c0 by (simp add: NUM_POSE_DELAY_SLOTS_def Let_def)
qed

lemma find_free_loop_some:
  assumes "delay_slot_index dev < 3" and "j < n"
    and "use_count (delay_slots dev ! ((delay_slot_index dev + j) mod 3)) = 0"
    and "\<forall>j'<j. use_count (delay_slots dev ! ((delay_slot_index dev + j') mod 3)) \<noteq> 0"
  shows "find_free_loop n dev =
           (Some ((delay_slot_index dev + j) mod 3),
            dev\<lparr>delay_slot_index := (delay_slot_index dev + j + 1) mod 3\<rparr>)"
  using assms
proof (induction j arbitrary: dev n)
  case 0
  then obtain n' where "n = Suc n'" by (cases n) auto
  with 0 show ?case by (simp add: NUM_POSE_DELAY_SLOTS_def Let_def)
next
  case (Suc j)
  then obtain n' where n: "n = Suc n'" by (cases n) auto
  let ?c = "delay_slot_index dev"
  let ?d = "dev\<lparr>delay_slot_index := (?c + 1) mod 3\<rparr>"
  have c0: "use_count (delay_slots dev ! ?c) \<noteq> 0"
    using Suc.prems(1) Suc.prems(4) [rule_format, of 0] by simp
  have e: "\<And>k. (Suc ?c mod 3 + k) mod 3 = Suc (?c + k) mod 3"
    by (rule mod3_shift)
  have "find_free_loop n' ?d =
          (Some ((delay_slot_index ?d + j) mod 3),
           ?d\<lparr>delay_slot_index := (delay_slot_index ?d + j + 1) mod 3\<rparr>)"
  proof (rule Suc.IH)
    show "delay_slot_index ?d < 3" by simp
    show "j < n'" using Suc.prems(2) n by simp
    show "use_count (delay_slots ?d ! ((delay_slot_index ?d + j) mod 3)) = 0"
      using Suc.prems(3) by (simp add: e)
    show "\<forall>j'<j. use_count (delay_slots ?d ! ((delay_slot_index ?d + j') mod 3)) \<noteq> 0"
    proof (intro allI impI)
      fix j' assume "j' < j"
      then show "use_count (delay_slots ?d ! ((delay_slot_index ?d + j') mod 3)) \<noteq> 0"
        using Suc.prems(4) [rule_format, of "Suc j'"] by (simp add: e)
    qed
  qed
  moreover have "Suc (Suc ?c mod 3 + j) mod 3 = Suc (Suc (?c + j)) mod 3"
    by (rule mod3_shift_Suc)
  ultimately show ?case using c0 n by (simp add: NUM_POSE_DELAY_SLOTS_def Let_def e)
qed


lemma get_model_pose_locked_frame:
  "delay_slots (fst (rift_tracked_device_get_model_pose_locked ext dev)) = delay_slots dev"
  "delay_slot_index (fst (rift_tracked_device_get_model_pose_locked ext dev)) = delay_slot_index dev"
  "ukf_fusion (fst (rift_tracked_device_get_model_pose_locked ext dev)) = ukf_fusion dev"
  "device_time_ns (fst (rift_tracked_device_get_model_pose_locked ext dev)) = device_time_ns dev"
  by (simp_all add: rift_tracked_device_get_model_pose_locked_def Let_def split: prod.splits)

lemma on_new_exposure_chosen:
  assumes f: "find_free_delay_slot dev = (found, dev1)"
    and c: "(case found of None \<Rightarrow> reclaim_delay_slot dev1 | Some i \<Rightarrow> Some i) = Some i"
  shows "delay_slots (fst (rift_tracked_device_on_new_exposure ext dev dev_info)) =
           (delay_slots dev1)[i := (delay_slots dev1 ! i)
              \<lparr>valid := True, use_count := 0, slot_device_time_ns := device_time_ns dev1,
               n_pose_reports := 0, n_used_reports := 0\<rparr>]"
    and "delay_slot_index (fst (rift_tracked_device_on_new_exposure ext dev dev_info)) =
           delay_slot_index dev1"
    and "fusion_slot (snd (rift_tracked_device_on_new_exposure ext dev dev_info)) =
           slot_id (delay_slots dev1 ! i)"
    and "info_device_time_ns (snd (rift_tracked_device_on_new_exposure ext dev dev_info)) =
           device_time_ns dev1"
    and "ukf_fusion (fst (rift_tracked_device_on_new_exposure ext dev dev_info)) =
           ukf_fusion dev1 @ [Prepare_delay_slot (device_time_ns dev1) (slot_id (delay_slots dev1 ! i))]"
proof -
  let ?slot = "(delay_slots dev1 ! i)
              \<lparr>valid := True, use_count := 0, slot_device_time_ns := device_time_ns dev1,
               n_pose_reports := 0, n_used_reports := 0\<rparr>"
  let ?d2 = "dev1\<lparr>delay_slots := (delay_slots dev1)[i := ?slot]\<rparr>"
  obtain d3 cp pe re where g: "rift_tracked_device_get_model_pose_locked ext ?d2 = (d3, cp, pe, re)"
    by (metis prod_cases4)
  have d3: "delay_slots d3 = delay_slots ?d2" "delay_slot_index d3 = delay_slot_index ?d2"
       "ukf_fusion d3 = ukf_fusion ?d2"
    using get_model_pose_locked_frame [of ext ?d2] by (simp_all add: g)
  show "delay_slots (fst (rift_tracked_device_on_new_exposure ext dev dev_info)) = (delay_slots dev1)[i := ?slot]"
    using d3 by (simp add: rift_tracked_device_on_new_exposure_def f c Let_def g)
  show "delay_slot_index (fst (rift_tracked_device_on_new_exposure ext dev dev_info)) =
           delay_slot_index dev1"
    using d3 by (simp add: rift_tracked_device_on_new_exposure_def f c Let_def g)
  show "fusion_slot (snd (rift_tracked_device_on_new_exposure ext dev dev_info)) =
           slot_id (delay_slots dev1 ! i)"
    by (simp add: rift_tracked_device_on_new_exposure_def f c Let_def g)
  show "info_device_time_ns (snd (rift_tracked_device_on_new_exposure ext dev dev_info)) =
           device_time_ns dev1"
    by (simp add: rift_tracked_device_on_new_exposure_def f c Let_def g)
  show "ukf_fusion (fst (rift_tracked_device_on_new_exposure ext dev dev_info)) =
           ukf_fusion dev1 @ [Prepare_delay_slot (device_time_ns dev1) (slot_id (delay_slots dev1 ! i))]"
    using d3 by (simp add: rift_tracked_device_on_new_exposure_def f c Let_def g)
qed

lemma on_new_exposure_none:
  assumes f: "find_free_delay_slot dev = (None, dev1)"
    and c: "reclaim_delay_slot dev1 = None"
  shows "rift_tracked_device_on_new_exposure ext dev dev_info =
           (dev1, dev_info\<lparr>info_device_time_ns := device_time_ns dev1, fusion_slot := - 1\<rparr>)"
  by (simp add: rift_tracked_device_on_new_exposure_def f c Let_def)

lemma cursor_wraps:
  "delay_slot_index dev < 3 \<Longrightarrow> dev\<lparr>delay_slot_index := (delay_slot_index dev + 3) mod 3\<rparr> = dev"
  by simp

lemma reclaim_Some:
  assumes "i < 3" "valid (delay_slots dev ! i)" "n_used_reports (delay_slots dev ! i) > 0"
    and "\<forall>i'<i. \<not> (valid (delay_slots dev ! i') \<and> n_used_reports (delay_slots dev ! i') > 0)"
  shows "reclaim_delay_slot dev = Some i"
  unfolding reclaim_delay_slot_def NUM_POSE_DELAY_SLOTS_def find_Some_iff
  using assms by (intro exI [of _ i]) simp

lemma reclaim_None:
  assumes "\<forall>i<3. \<not> (valid (delay_slots dev ! i) \<and> n_used_reports (delay_slots dev ! i) > 0)"
  shows "reclaim_delay_slot dev = None"
  unfolding reclaim_delay_slot_def NUM_POSE_DELAY_SLOTS_def find_None_iff
  using assms by simp


lemma find_free_loop_time:
  "device_time_ns (snd (find_free_loop n dev)) = device_time_ns dev"
  by (induction n arbitrary: dev) (simp_all add: Let_def)

lemma on_new_exposure_time:
  "info_device_time_ns (snd (rift_tracked_device_on_new_exposure ext dev dev_info)) =
     device_time_ns dev"
proof (cases "find_free_delay_slot dev")
  case (Pair found dev1)
  then have t: "device_time_ns dev1 = device_time_ns dev"
    using find_free_loop_time [of NUM_POSE_DELAY_SLOTS dev]
    by (simp add: find_free_delay_slot_def)
  show ?thesis
  proof (cases "case found of None \<Rightarrow> reclaim_delay_slot dev1 | Some i \<Rightarrow> Some i")
    case None
    then have "found = None" "reclaim_delay_slot dev1 = None"
      by (simp_all split: option.splits)
    then show ?thesis
      using on_new_exposure_none [of dev dev1 ext dev_info] Pair t by simp
  next
    case (Some i)
    then show ?thesis
      using on_new_exposure_chosen(4) [OF Pair Some, of ext dev_info] t by simp
  qed
qed

lemma send_imu_debug_fields [simp]:
  "index (rift_tracked_device_send_imu_debug dev) = index dev"
  "ukf_fusion (rift_tracked_device_send_imu_debug dev) = ukf_fusion dev"
  "delay_slots (rift_tracked_device_send_imu_debug dev) = delay_slots dev"
  "device_time_ns (rift_tracked_device_send_imu_debug dev) = device_time_ns dev"
  "last_observed_pose_ts (rift_tracked_device_send_imu_debug dev) = last_observed_pose_ts dev"
  "last_observed_orient_ts (rift_tracked_device_send_imu_debug dev) = last_observed_orient_ts dev"
  "fusion_from_model (rift_tracked_device_send_imu_debug dev) = fusion_from_model dev"
  by (simp_all add: rift_tracked_device_send_imu_debug_def)

lemma send_imu_debug_matching [simp]:
  "get_matching_delay_slot (rift_tracked_device_send_imu_debug dev) dev_info =
     get_matching_delay_slot dev dev_info"
  by (simp add: get_matching_delay_slot_def)

lemma send_imu_debug_gates [simp]:
  "update_position (rift_tracked_device_send_imu_debug dev) dev_info sc = update_position dev dev_info sc"
  "update_orientation (rift_tracked_device_send_imu_debug dev) sc = update_orientation dev sc"
  by (simp_all add: update_position_def update_orientation_def)

lemma model_pose_update_matched:
  fixes dev :: "('v, 'q) rift_tracked_device_priv" and ext ei sc mp max_sensors i
  assumes "index dev < n_devices ei"
    and "get_matching_delay_slot dev (devices ei ! index dev) = Some i"
    and "length (delay_slots dev) = NUM_POSE_DELAY_SLOTS"
  defines "res \<equiv> fst (rift_tracked_device_model_pose_update ext max_sensors dev ei sc mp)"
    and "up \<equiv> update_position dev (devices ei ! index dev) sc"
    and "slot \<equiv> delay_slots dev ! i"
    and "imu_pose \<equiv> oposef_apply ext (fusion_from_model dev) mp"
  shows "ukf_fusion res =
           (if up then ukf_fusion dev @
              [if update_orientation dev sc
               then Pose_update (device_time_ns dev) imu_pose (slot_id slot)
               else Position_update (device_time_ns dev) (pos imu_pose) (slot_id slot)]
            else ukf_fusion dev)"
    and "last_observed_pose_ts res = (if up then device_time_ns dev else last_observed_pose_ts dev)"
    and "delay_slots res ! i =
           (if n_pose_reports slot < int max_sensors
            then slot\<lparr>pose_reports := (pose_reports slot)
                        [nat (n_pose_reports slot) := \<lparr>report_used = up, pose = imu_pose, score = sc\<rparr>],
                      n_used_reports := (if up then n_used_reports slot + 1 else n_used_reports slot),
                      n_pose_reports := n_pose_reports slot + 1\<rparr>
            else slot)"
    and "\<not> n_pose_reports slot < int max_sensors \<Longrightarrow> delay_slots res = delay_slots dev"
    and "snd (rift_tracked_device_model_pose_update ext max_sensors dev ei sc mp) = (up \<or> update_orientation dev sc)"
proof -
  have i: "i < length (delay_slots dev)"
    using matching_SomeD(3) [OF assms(2)] assms(3) by simp
  show "ukf_fusion res =
           (if up then ukf_fusion dev @
              [if update_orientation dev sc
               then Pose_update (device_time_ns dev) imu_pose (slot_id slot)
               else Position_update (device_time_ns dev) (pos imu_pose) (slot_id slot)]
            else ukf_fusion dev)"
    using assms(1,2)
    by (simp add: res_def up_def slot_def imu_pose_def rift_tracked_device_model_pose_update_def Let_def)
  show "last_observed_pose_ts res = (if up then device_time_ns dev else last_observed_pose_ts dev)"
    using assms(1,2)
    by (simp add: res_def up_def slot_def imu_pose_def rift_tracked_device_model_pose_update_def Let_def)
  show "delay_slots res ! i =
           (if n_pose_reports slot < int max_sensors
            then slot\<lparr>pose_reports := (pose_reports slot)
                        [nat (n_pose_reports slot) := \<lparr>report_used = up, pose = imu_pose, score = sc\<rparr>],
                      n_used_reports := (if up then n_used_reports slot + 1 else n_used_reports slot),
                      n_pose_reports := n_pose_reports slot + 1\<rparr>
            else slot)"
    using assms(1,2) i
    by (simp add: res_def up_def slot_def imu_pose_def rift_tracked_device_model_pose_update_def Let_def)
  show "delay_slots res = delay_slots dev" if "\<not> n_pose_reports slot < int max_sensors"
    using assms(1,2) i that
    by (simp add: res_def up_def slot_def imu_pose_def rift_tracked_device_model_pose_update_def Let_def)
  show "snd (rift_tracked_device_model_pose_update ext max_sensors dev ei sc mp) = (up \<or> update_orientation dev sc)"
    using assms(1,2)
    by (simp add: res_def up_def slot_def imu_pose_def rift_tracked_device_model_pose_update_def Let_def)
qed



lemma release_times_partial:
  assumes "get_matching_delay_slot dev dev_info = Some i"
    and "length (delay_slots dev) = NUM_POSE_DELAY_SLOTS"
    and "use_count (delay_slots dev ! i) = int k"
    and "n < k"
  shows "ukf_fusion (release_times n dev dev_info) = ukf_fusion dev \<and>
         use_count (delay_slots (release_times n dev dev_info) ! i) = int (k - n)"
  using assms
proof (induction n arbitrary: dev k)
  case 0
  then show ?case by simp
next
  case (Suc n)
  let ?d = "fst (rift_tracked_device_exposure_release_locked dev dev_info)"
  have i: "i < length (delay_slots dev)"
    using matching_SomeD(3) [OF Suc.prems(1)] Suc.prems(2) by simp
  have d: "?d = dev\<lparr>delay_slots := (delay_slots dev)
                  [i := (delay_slots dev ! i)\<lparr>use_count := int k - 1\<rparr>]\<rparr>"
    using Suc.prems by (simp add: release_more)
  have m: "get_matching_delay_slot ?d dev_info = Some i"
    using Suc.prems(1) i matching_SomeD [OF Suc.prems(1)]
    by (simp add: d get_matching_delay_slot_def Let_def)
  have "ukf_fusion (release_times n ?d dev_info) = ukf_fusion ?d \<and>
        use_count (delay_slots (release_times n ?d dev_info) ! i) = int ((k - 1) - n)"
    using i Suc.prems(2,4) by (intro Suc.IH m) (simp_all add: d)
  then show ?case by (simp add: d)
qed


lemmas example_defs =
  unit_pose_def example_ext_def example_slot_def example_device_def example_dev_info_def
  example_exposure_def fresh_device_def NUM_POSE_DELAY_SLOTS_def

lemmas int_example_defs =
  int_ext_def int_filter_def int_device_def fresh_device_def NUM_POSE_DELAY_SLOTS_def

lemma upt_3: "[0..<3] = [0, 1, 2]"
  by (simp add: upt_rec)

lemma ucast_mult_1000:
  fixes d :: u32
  assumes "unat d \<le> 4294967"
  shows "unat (ucast (d * 1000) :: u64) = unat d * 1000"
proof -
  have a: "unat d * 1000 < 2 ^ 32" using assms by simp
  have "unat (d * 1000) = (unat d * 1000) mod 2 ^ 32"
    by (simp add: unat_word_ariths)
  with a have b: "unat (d * 1000) = unat d * 1000" by simp
  have "unat (ucast (d * 1000) :: u64) = take_bit 64 (unat (d * 1000))"
    by (simp add: unsigned_ucast_eq)
  also have "\<dots> = unat (d * 1000)"
    by (rule take_bit_nat_eq_self) (use a b in simp)
  finally show ?thesis using b by simp
qed

lemma imu_update_clock:
  "device_time_ns (rift_tracked_device_imu_update dev ts a b c) =
   (if device_time_ns dev = 0 then ucast (ts * 1000)
    else device_time_ns dev + ucast ((ts - last_device_ts dev) * 1000))"
  by (simp add: rift_tracked_device_imu_update_def rift_tracked_device_send_imu_debug_def Let_def)

lemma imu_update_last_ts:
  "last_device_ts (rift_tracked_device_imu_update dev ts a b c) = ts"
  by (simp add: rift_tracked_device_imu_update_def rift_tracked_device_send_imu_debug_def Let_def)

lemmas pose_update_eval =
  rift_tracked_device_model_pose_update_def rift_tracked_device_send_imu_debug_def
  get_matching_delay_slot_def update_position_def update_orientation_def POSE_HAS_FLAGS_def
  POSE_LOST_ORIENT_THRESHOLD_def Let_def

lemma posef_pos_update:
  "p\<lparr>pos := x\<rparr> = \<lparr>pos = x, orient = orient p\<rparr>" for p :: "('v, 'q) posef"
  by (cases p) simp

lemma lost_threshold:
  "(POSE_LOST_THRESHOLD * 1000000 \<le> (d :: u64)) = (500000000 \<le> d)"
  by (simp add: POSE_LOST_THRESHOLD_def)

lemma ucast_u32_u64_eq_0: "((ucast (w :: u32) :: u64) = 0) = (w = 0)"
proof -
  have "unat w < 2 ^ 32" using unsigned_less [of w] by simp
  then have "unat w < 2 ^ 64" by simp
  then have "unat (ucast w :: u64) = unat w"
    by (simp add: unsigned_ucast_eq take_bit_nat_eq_self)
  then show ?thesis by (simp add: word_unat_eq_iff)
qed

lemma imu_update_advance_32bit:
  assumes "device_time_ns dev = 0 \<longrightarrow> last_device_ts dev * 1000 = 0"
  shows "device_time_ns (rift_tracked_device_imu_update dev ts a b c) =
           device_time_ns dev + ucast ((ts - last_device_ts dev) * 1000)"
proof (cases "device_time_ns dev = 0")
  case True
  with assms have "(ts - last_device_ts dev) * 1000 = ts * 1000"
    by (simp add: left_diff_distrib)
  with True show ?thesis by (simp add: imu_update_clock)
next
  case False
  then show ?thesis by (simp add: imu_update_clock)
qed

lemma imu_clock_first_update:
  assumes "device_time_ns dev = 0"
  shows "device_time_ns (rift_tracked_device_imu_update dev ts a b c) = 0 \<longrightarrow>
           last_device_ts (rift_tracked_device_imu_update dev ts a b c) * 1000 = 0"
  using assms by (simp add: imu_update_clock imu_update_last_ts ucast_u32_u64_eq_0)

lemma imu_update_small_delta:
  assumes "device_time_ns dev = 0 \<longrightarrow> last_device_ts dev * 1000 = 0"
    and "unat (ts - last_device_ts dev) \<le> 4294967"
  shows "unat (device_time_ns (rift_tracked_device_imu_update dev ts a b c)) =
           (unat (device_time_ns dev) + unat (ts - last_device_ts dev) * 1000) mod 2 ^ 64"
proof -
  have "unat (device_time_ns (rift_tracked_device_imu_update dev ts a b c)) =
          (unat (device_time_ns dev) + unat (ucast ((ts - last_device_ts dev) * 1000) :: u64)) mod 2 ^ 64"
    by (simp only: imu_update_advance_32bit [OF assms(1)] unat_word_ariths) simp
  then show ?thesis
    by (simp only: ucast_mult_1000 [OF assms(2)])
qed

lemma imu_update_wraparound_example:
  "(let d1 = rift_tracked_device_imu_update (fresh_device 0 4 unit_pose) 0xFFFFFF00 () () ();
        d2 = rift_tracked_device_imu_update d1 0x100 () () ()
    in last_device_ts d1 = 0xFFFFFF00 \<and> device_time_ns d2 = device_time_ns d1 + 512000)"
  by (simp add: imu_update_clock imu_update_last_ts example_defs Let_def)

subsection \<open>The bookkeeping invariant\<close>

text \<open>\<open>wf_device\<close> holds for a fresh device and is kept by every operation on a device.\<close>

lemma wf_device_iff:
  "wf_device dev \<longleftrightarrow>
     length (delay_slots dev) = 3 \<and> delay_slot_index dev < 3 \<and>
     (\<forall>i<3. slot_id (delay_slots dev ! i) = int i)"
  by (auto simp: wf_device_def NUM_POSE_DELAY_SLOTS_def list_all_iff)

lemma wf_device_update_slot:
  assumes "wf_device dev" and "slot_id s = slot_id (delay_slots dev ! i)"
    and "delay_slots dev' = (delay_slots dev)[i := s]"
    and "delay_slot_index dev' < 3"
  shows "wf_device dev'"
proof (cases "i < length (delay_slots dev)")
  case True
  with assms show ?thesis by (auto simp: wf_device_iff nth_list_update)
next
  case False
  with assms show ?thesis by (simp add: wf_device_iff)
qed

lemma wf_device_same_slots:
  assumes "wf_device dev" and "delay_slots dev' = delay_slots dev"
    and "delay_slot_index dev' < 3"
  shows "wf_device dev'"
  using assms by (simp add: wf_device_iff)

lemma find_free_loop_frame:
  "delay_slots (snd (find_free_loop n dev)) = delay_slots dev"
  "delay_slot_index dev < 3 \<Longrightarrow> delay_slot_index (snd (find_free_loop n dev)) < 3"
  by (induction n arbitrary: dev) (simp_all add: Let_def NUM_POSE_DELAY_SLOTS_def)

lemma wf_fresh_device: "wf_device (fresh_device idx max_sensors p)"
  by (simp add: wf_device_def fresh_device_def NUM_POSE_DELAY_SLOTS_def upt_3)

lemma wf_imu_update:
  "wf_device dev \<Longrightarrow> wf_device (rift_tracked_device_imu_update dev ts a b c)"
  by (simp add: wf_device_iff rift_tracked_device_imu_update_def
      rift_tracked_device_send_imu_debug_def Let_def)

lemma wf_on_new_exposure:
  assumes "wf_device dev"
  shows "wf_device (fst (rift_tracked_device_on_new_exposure ext dev dev_info))"
proof (cases "find_free_delay_slot dev")
  case (Pair found dev1)
  have d1: "delay_slots dev1 = delay_slots dev" "delay_slot_index dev1 < 3"
    using find_free_loop_frame [where dev = dev and n = NUM_POSE_DELAY_SLOTS] Pair assms
    by (simp_all add: find_free_delay_slot_def wf_device_iff)
  have w1: "wf_device dev1" by (rule wf_device_same_slots [OF assms d1])
  show ?thesis
  proof (cases "case found of None \<Rightarrow> reclaim_delay_slot dev1 | Some i \<Rightarrow> Some i")
    case None
    then have "found = None" "reclaim_delay_slot dev1 = None"
      by (simp_all split: option.splits)
    then show ?thesis
      using on_new_exposure_none [of dev dev1 ext dev_info] Pair w1 by simp
  next
    case (Some i)
    have c: "delay_slot_index (fst (rift_tracked_device_on_new_exposure ext dev dev_info)) < 3"
      using on_new_exposure_chosen(2) [OF Pair Some, of ext dev_info] d1(2) by simp
    show ?thesis
      by (rule wf_device_update_slot [OF w1 _ on_new_exposure_chosen(1) [OF Pair Some] c]) simp
  qed
qed

lemma wf_exposure_claim:
  assumes "wf_device dev"
  shows "wf_device (fst (rift_tracked_device_exposure_claim dev dev_info))"
proof (cases "get_matching_delay_slot dev dev_info")
  case None
  with assms show ?thesis by (simp add: rift_tracked_device_exposure_claim_def)
next
  case (Some i)
  show ?thesis
    by (rule wf_device_update_slot [OF assms, where i = i
          and s = "(delay_slots dev ! i)\<lparr>use_count := use_count (delay_slots dev ! i) + 1\<rparr>"])
       (use assms in \<open>simp_all add: rift_tracked_device_exposure_claim_def Some Let_def wf_device_iff\<close>)
qed

lemma wf_exposure_release:
  assumes "wf_device dev"
  shows "wf_device (fst (rift_tracked_device_exposure_release_locked dev dev_info))"
proof (cases "get_matching_delay_slot dev dev_info")
  case None
  with assms show ?thesis by (simp add: rift_tracked_device_exposure_release_locked_def)
next
  case (Some i)
  obtain s where
    s: "delay_slots (fst (rift_tracked_device_exposure_release_locked dev dev_info)) =
          (delay_slots dev)[i := s]" "slot_id s = slot_id (delay_slots dev ! i)"
    by (simp add: rift_tracked_device_exposure_release_locked_def Some Let_def)
  have c: "delay_slot_index (fst (rift_tracked_device_exposure_release_locked dev dev_info)) < 3"
    using assms by (simp add: rift_tracked_device_exposure_release_locked_def Some Let_def wf_device_iff)
  show ?thesis by (rule wf_device_update_slot [OF assms s(2) s(1) c])
qed

lemma wf_send_imu_debug:
  "wf_device dev \<Longrightarrow> wf_device (rift_tracked_device_send_imu_debug dev)"
  by (simp add: wf_device_iff rift_tracked_device_send_imu_debug_def)

lemma send_imu_debug_cursor:
  "delay_slot_index (rift_tracked_device_send_imu_debug dev) = delay_slot_index dev"
  by (simp add: rift_tracked_device_send_imu_debug_def)

lemma wf_model_pose_update:
  assumes "wf_device dev"
  shows "wf_device (fst (rift_tracked_device_model_pose_update ext max_sensors dev ei sc mp))"
proof (cases "index dev < n_devices ei")
  case False
  with assms show ?thesis
    by (simp add: rift_tracked_device_model_pose_update_def Let_def wf_send_imu_debug)
next
  case True
  show ?thesis
  proof (cases "get_matching_delay_slot dev (devices ei ! index dev)")
    case None
    with assms True show ?thesis
      by (simp add: rift_tracked_device_model_pose_update_def Let_def wf_send_imu_debug)
  next
    case (Some i)
    let ?slot = "delay_slots dev ! i"
    let ?s = "(if n_pose_reports ?slot < int max_sensors
            then ?slot\<lparr>pose_reports := (pose_reports ?slot)
                        [nat (n_pose_reports ?slot) :=
                           \<lparr>report_used = update_position dev (devices ei ! index dev) sc,
                            pose = oposef_apply ext (fusion_from_model dev) mp, score = sc\<rparr>],
                      n_used_reports := (if update_position dev (devices ei ! index dev) sc
                                         then n_used_reports ?slot + 1 else n_used_reports ?slot),
                      n_pose_reports := n_pose_reports ?slot + 1\<rparr>
            else ?slot)"
    have s: "delay_slots (fst (rift_tracked_device_model_pose_update ext max_sensors dev ei sc mp)) =
            (delay_slots dev)[i := ?s]"
      using True Some by (simp add: rift_tracked_device_model_pose_update_def Let_def)
    have c: "delay_slot_index (fst (rift_tracked_device_model_pose_update ext max_sensors dev ei sc mp)) < 3"
      using assms True Some
      by (simp add: rift_tracked_device_model_pose_update_def Let_def wf_device_iff
          send_imu_debug_cursor)
    have "slot_id ?s = slot_id ?slot" by simp
    then show ?thesis by (rule wf_device_update_slot [OF assms _ s c])
  qed
qed

lemma wf_device_invariant:
  "wf_device (fresh_device idx max_sensors p)
   \<and> (wf_device dev \<longrightarrow>
        wf_device (rift_tracked_device_imu_update dev ts a b c)
      \<and> wf_device (fst (rift_tracked_device_on_new_exposure ext dev dev_info))
      \<and> wf_device (fst (rift_tracked_device_exposure_claim dev dev_info))
      \<and> wf_device (fst (rift_tracked_device_exposure_release_locked dev dev_info))
      \<and> wf_device (fst (rift_tracked_device_model_pose_update ext max_sensors dev ei sc mp)))"
  by (simp add: wf_fresh_device wf_imu_update wf_on_new_exposure wf_exposure_claim
      wf_exposure_release wf_model_pose_update)

subsection \<open>Delay-slot allocation on a new exposure\<close>

text \<open>
  Claim C1.  For a device with well-formed bookkeeping, \<^verbatim>\<open>rift_tracked_device_on_new_exposure\<close>
  stamps the exposure entry with the device time and then:
  \<^item> walking the round-robin cursor \<open>c\<close> over the three slots, it takes the first slot
    \<open>(c + j) mod 3\<close> whose \<open>use_count\<close> is 0, stamps it (valid, unused, no reports, the
    exposure's \<open>device_time_ns\<close>), reports its index as \<open>fusion_slot\<close> and leaves the cursor
    one past it;
  \<^item> if no slot has \<open>use_count = 0\<close>, it takes the first slot by index that is valid and has
    \<open>n_used_reports > 0\<close>, stamps it in the same way and leaves the cursor where it was;
  \<^item> if there is neither, \<open>fusion_slot\<close> is \<open>-1\<close> and the device is unchanged.
\<close>

theorem new_exposure_slot_allocation:
  fixes dev :: "('v, 'q) rift_tracked_device_priv" and ext dev_info
  defines "c \<equiv> delay_slot_index dev"
    and "res \<equiv> rift_tracked_device_on_new_exposure ext dev dev_info"
    and "free \<equiv> \<lambda>i. use_count (delay_slots dev ! i) = 0"
    and "reclaimable \<equiv> \<lambda>i. valid (delay_slots dev ! i) \<and> n_used_reports (delay_slots dev ! i) > 0"
    and "stamped \<equiv> \<lambda>i. (delay_slots dev)[i := (delay_slots dev ! i)
            \<lparr>valid := True, use_count := 0, slot_device_time_ns := device_time_ns dev,
             n_pose_reports := 0, n_used_reports := 0\<rparr>]"
  assumes wf: "wf_device dev"
  shows "info_device_time_ns (snd res) = device_time_ns dev
       \<and> (\<forall>j<3. free ((c + j) mod 3) \<and> (\<forall>j'<j. \<not> free ((c + j') mod 3)) \<longrightarrow>
             fusion_slot (snd res) = int ((c + j) mod 3)
           \<and> delay_slots (fst res) = stamped ((c + j) mod 3)
           \<and> delay_slot_index (fst res) = (c + j + 1) mod 3)
       \<and> (\<forall>i<3. (\<forall>k<3. \<not> free k) \<and> reclaimable i \<and> (\<forall>i'<i. \<not> reclaimable i') \<longrightarrow>
             fusion_slot (snd res) = int i
           \<and> delay_slots (fst res) = stamped i
           \<and> delay_slot_index (fst res) = c)
       \<and> ((\<forall>k<3. \<not> free k) \<and> (\<forall>k<3. \<not> reclaimable k) \<longrightarrow>
             fusion_slot (snd res) = - 1 \<and> fst res = dev)"
proof -
  have c3: "c < 3" and ids: "\<And>i. i < 3 \<Longrightarrow> slot_id (delay_slots dev ! i) = int i"
    using wf by (auto simp: wf_device_def c_def NUM_POSE_DELAY_SLOTS_def list_all_iff)
  have busy: "find_free_delay_slot dev = (None, dev)" if "\<forall>k<3. \<not> free k"
  proof -
    have "\<forall>j<3. use_count (delay_slots dev ! ((delay_slot_index dev + j) mod 3)) \<noteq> 0"
      using that by (simp add: free_def)
    then have "find_free_loop 3 dev = (None, dev\<lparr>delay_slot_index := (delay_slot_index dev + 3) mod 3\<rparr>)"
      using c3 unfolding c_def by (intro find_free_loop_none) simp_all
    then show ?thesis
      using c3 unfolding c_def by (simp add: find_free_delay_slot_def NUM_POSE_DELAY_SLOTS_def)
  qed
  have p0: "info_device_time_ns (snd res) = device_time_ns dev"
    unfolding res_def by (rule on_new_exposure_time)
  have p1: "fusion_slot (snd res) = int ((c + j) mod 3)
           \<and> delay_slots (fst res) = stamped ((c + j) mod 3)
           \<and> delay_slot_index (fst res) = (c + j + 1) mod 3"
    if "j < 3" "free ((c + j) mod 3)" "\<forall>j'<j. \<not> free ((c + j') mod 3)" for j
  proof -
    let ?i = "(c + j) mod 3"
    let ?d1 = "dev\<lparr>delay_slot_index := (c + j + 1) mod 3\<rparr>"
    have f: "find_free_delay_slot dev = (Some ?i, ?d1)"
      unfolding find_free_delay_slot_def NUM_POSE_DELAY_SLOTS_def c_def
      using that c3 by (intro find_free_loop_some) (simp_all add: free_def c_def)
    show ?thesis
      using on_new_exposure_chosen [OF f, of ?i ext dev_info] ids [of ?i]
      by (simp add: res_def stamped_def)
  qed
  have p2: "fusion_slot (snd res) = int i \<and> delay_slots (fst res) = stamped i
           \<and> delay_slot_index (fst res) = c"
    if "i < 3" "\<forall>k<3. \<not> free k" "reclaimable i" "\<forall>i'<i. \<not> reclaimable i'" for i
  proof -
    have r: "reclaim_delay_slot dev = Some i"
      using that by (intro reclaim_Some) (simp_all add: reclaimable_def)
    show ?thesis
      using on_new_exposure_chosen [OF busy [OF that(2)], of i ext dev_info] r ids [OF that(1)]
      by (simp add: res_def stamped_def c_def)
  qed
  have p3: "fusion_slot (snd res) = - 1 \<and> fst res = dev"
    if "\<forall>k<3. \<not> free k" "\<forall>k<3. \<not> reclaimable k"
  proof -
    have r: "reclaim_delay_slot dev = None"
      using that(2) by (intro reclaim_None) (simp add: reclaimable_def)
    show ?thesis
      using on_new_exposure_none [OF busy [OF that(1)] r, of ext dev_info] by (simp add: res_def)
  qed
  show ?thesis using p0 p1 p2 p3 by blast
qed

theorem new_exposure_slot_allocation_witness:
  "(let dev = example_device 1 1000 0
       [example_slot 0 1 True 10 0 0, example_slot 1 2 True 20 0 0, example_slot 2 0 False 0 0 0];
        res = rift_tracked_device_on_new_exposure example_ext dev (example_dev_info 0 (- 1) False)
    in wf_device dev \<and> fusion_slot (snd res) = 2 \<and> delay_slot_index (fst res) = 0
       \<and> delay_slots (fst res) ! 2 = example_slot 2 0 True 1000 0 0
       \<and> info_device_time_ns (snd res) = 1000)
 \<and> (let dev = example_device 0 1000 0
       [example_slot 0 1 True 10 0 0, example_slot 1 2 True 20 1 1, example_slot 2 1 True 30 2 1];
        res = rift_tracked_device_on_new_exposure example_ext dev (example_dev_info 0 (- 1) False)
    in wf_device dev \<and> fusion_slot (snd res) = 1 \<and> delay_slot_index (fst res) = 0
       \<and> delay_slots (fst res) ! 1 = example_slot 1 0 True 1000 0 0)
 \<and> (let dev = example_device 0 1000 0
       [example_slot 0 1 True 10 0 0, example_slot 1 2 True 20 1 0, example_slot 2 1 True 30 0 0];
        res = rift_tracked_device_on_new_exposure example_ext dev (example_dev_info 0 (- 1) False)
    in wf_device dev \<and> fusion_slot (snd res) = - 1 \<and> fst res = dev)"
proof -
  let ?i = "example_dev_info 0 (- 1) False"
  let ?a = "example_device 1 1000 0
       [example_slot 0 1 True 10 0 0, example_slot 1 2 True 20 0 0, example_slot 2 0 False 0 0 0]"
  let ?b = "example_device 0 1000 0
       [example_slot 0 1 True 10 0 0, example_slot 1 2 True 20 1 1, example_slot 2 1 True 30 2 1]"
  let ?c = "example_device 0 1000 0
       [example_slot 0 1 True 10 0 0, example_slot 1 2 True 20 1 0, example_slot 2 1 True 30 0 0]"
  have wa: "wf_device ?a" and wb: "wf_device ?b" and wc: "wf_device ?c"
    by (simp_all add: wf_device_def example_defs upt_3)
  have a: "fusion_slot (snd (rift_tracked_device_on_new_exposure example_ext ?a ?i)) = 2
         \<and> delay_slot_index (fst (rift_tracked_device_on_new_exposure example_ext ?a ?i)) = 0
         \<and> delay_slots (fst (rift_tracked_device_on_new_exposure example_ext ?a ?i)) ! 2
             = example_slot 2 0 True 1000 0 0
         \<and> info_device_time_ns (snd (rift_tracked_device_on_new_exposure example_ext ?a ?i)) = 1000"
    using new_exposure_slot_allocation [OF wa, of example_ext ?i, THEN conjunct1]
      new_exposure_slot_allocation [OF wa, of example_ext ?i, THEN conjunct2, THEN conjunct1,
        rule_format, of 1]
    by (simp add: example_defs)
  have b: "fusion_slot (snd (rift_tracked_device_on_new_exposure example_ext ?b ?i)) = 1
         \<and> delay_slot_index (fst (rift_tracked_device_on_new_exposure example_ext ?b ?i)) = 0
         \<and> delay_slots (fst (rift_tracked_device_on_new_exposure example_ext ?b ?i)) ! 1
             = example_slot 1 0 True 1000 0 0"
    using new_exposure_slot_allocation [OF wb, of example_ext ?i, THEN conjunct2, THEN conjunct2,
        THEN conjunct1, rule_format, of 1]
    by (simp add: example_defs less_Suc_eq numeral_3_eq_3)
  have c: "fusion_slot (snd (rift_tracked_device_on_new_exposure example_ext ?c ?i)) = - 1
         \<and> fst (rift_tracked_device_on_new_exposure example_ext ?c ?i) = ?c"
    using new_exposure_slot_allocation [OF wc, of example_ext ?i, THEN conjunct2, THEN conjunct2,
        THEN conjunct2]
    by (simp add: example_defs less_Suc_eq numeral_3_eq_3)
  show ?thesis using wa wb wc a b c by (simp add: Let_def)
qed

subsection \<open>The extended device clock\<close>

text \<open>
  Claim C2, evaluated.  A freshly added device receives IMU updates at the raw timestamps
  1000 and 5001000, five seconds apart.  The first leaves the clock at 1000000 ns and the
  stored raw timestamp at 1000.  The raw delta of the second is 5000000 microseconds, so
  the clock should advance by 5000000000 ns; it advances by 705032704 ns, the product
  reduced modulo \<open>2^32\<close>.
\<close>

theorem imu_update_delta_wraps:
  "(let d1 = rift_tracked_device_imu_update (fresh_device 0 4 unit_pose) 1000 () () ();
        d2 = rift_tracked_device_imu_update d1 5001000 () () ()
    in device_time_ns d1 = 1000000 \<and> last_device_ts d1 = 1000
     \<and> unat (5001000 - last_device_ts d1) * 1000 = 5000000000
     \<and> device_time_ns d2 = device_time_ns d1 + 705032704
     \<and> device_time_ns d2 \<noteq> device_time_ns d1 + 5000000000)"
  by (simp add: imu_update_clock imu_update_last_ts example_defs Let_def)

text \<open>
  Claim C10, evaluated.  The first IMU update of a fresh device with the raw timestamp
  5000000 (five seconds after the device started counting) leaves the clock at
  705032704 ns, which is \<open>5000000 * 1000\<close> reduced modulo \<open>2^32\<close>, not
  5000000000 ns.
\<close>

theorem imu_first_update_wraps:
  "device_time_ns (rift_tracked_device_imu_update (fresh_device 0 4 unit_pose) 5000000 () () ())
     = 705032704
   \<and> unat (device_time_ns (rift_tracked_device_imu_update (fresh_device 0 4 unit_pose) 5000000 () () ()))
     \<noteq> 5000000 * 1000"
  by (simp add: imu_update_clock example_defs)

subsection \<open>The gates of the model-pose update\<close>

text \<open>
  Claim C3, evaluated.  A device at 1 s of device time whose last position observation was
  accepted 10 ms ago and which never had an orientation match receives a report with a
  matching slot and a score without the orientation flag.  The orientation is not
  accepted: the filter gets a position-only update.  The gate measures the time since
  \<open>last_observed_pose_ts\<close>; \<open>last_observed_orient_ts\<close> is never read.
\<close>

theorem orientation_gate_ignores_orient_time:
  "(let dev = example_device 0 1000000000 990000000
                [example_slot 0 1 True 980000000 0 0, example_slot 1 0 False 0 0 0,
                 example_slot 2 0 False 0 0 0];
        sc = \<lparr>match_flags = {RIFT_POSE_MATCH_POSITION}\<rparr>;
        res = rift_tracked_device_model_pose_update example_ext 4 dev
                (example_exposure 980000000 0 True) sc unit_pose
    in get_matching_delay_slot dev (example_dev_info 980000000 0 True) = Some 0
     \<and> device_time_ns dev - last_observed_orient_ts dev = 1000000000
     \<and> \<not> update_orientation dev sc
     \<and> ukf_fusion (fst res) = [Position_update 1000000000 () 0])"
  by (simp add: pose_update_eval example_defs)

text \<open>
  Claim C4, as amended.  For a report whose delay slot matched: the filter is left
  without a call exactly when the exposure had pose lock, the score lacks the position
  flag and \<open>last_observed_pose_ts\<close> is later than the exposure's device time.  Such a
  rejected report leaves \<open>last_observed_pose_ts\<close> alone; if the slot holds fewer than
  \<^verbatim>\<open>RIFT_MAX_SENSORS\<close> reports it is recorded in \<open>pose_reports\<close> with \<open>report_used = False\<close>
  and without counting as used, and if the slot is full the slots are left as they are.
  An accepted report makes one filter call and sets \<open>last_observed_pose_ts\<close> to the
  device time.
\<close>

theorem model_pose_update_position_gate:
  fixes dev :: "('v, 'q) rift_tracked_device_priv" and ext ei sc mp max_sensors i
  defines "dev_info \<equiv> devices ei ! index dev"
    and "res \<equiv> fst (rift_tracked_device_model_pose_update ext max_sensors dev ei sc mp)"
    and "slot \<equiv> delay_slots dev ! i"
  defines "rejected \<equiv> had_pose_lock dev_info \<and> \<not> POSE_HAS_FLAGS sc RIFT_POSE_MATCH_POSITION
                      \<and> last_observed_pose_ts dev > info_device_time_ns dev_info"
  assumes idx: "index dev < n_devices ei"
    and m: "get_matching_delay_slot dev dev_info = Some i"
    and len: "length (delay_slots dev) = NUM_POSE_DELAY_SLOTS"
    and n0: "0 \<le> n_pose_reports slot"
    and room: "length (pose_reports slot) = max_sensors"
  shows "(ukf_fusion res = ukf_fusion dev \<longleftrightarrow> rejected)
       \<and> (rejected \<longrightarrow>
            last_observed_pose_ts res = last_observed_pose_ts dev
          \<and> (n_pose_reports slot < int max_sensors \<longrightarrow>
               pose_reports (delay_slots res ! i) ! nat (n_pose_reports slot) =
                 \<lparr>report_used = False, pose = oposef_apply ext (fusion_from_model dev) mp,
                  score = sc\<rparr>
             \<and> n_pose_reports (delay_slots res ! i) = n_pose_reports slot + 1
             \<and> n_used_reports (delay_slots res ! i) = n_used_reports slot)
          \<and> (\<not> n_pose_reports slot < int max_sensors \<longrightarrow> delay_slots res = delay_slots dev))
       \<and> (\<not> rejected \<longrightarrow>
            last_observed_pose_ts res = device_time_ns dev
          \<and> (\<exists>call. ukf_fusion res = ukf_fusion dev @ [call]))"
proof -
  note u = model_pose_update_matched [OF idx m [unfolded dev_info_def] len,
      where ext = ext and max_sensors = max_sensors and sc = sc and mp = mp,
      folded res_def dev_info_def slot_def]
  have up: "update_position dev dev_info sc = (\<not> rejected)"
    by (simp add: update_position_def rejected_def)
  have a: "ukf_fusion res = ukf_fusion dev \<longleftrightarrow> rejected"
    by (simp add: u(1) up)
  have b: "last_observed_pose_ts res = last_observed_pose_ts dev" if rejected
    using that by (simp add: u(2) up)
  have c: "pose_reports (delay_slots res ! i) ! nat (n_pose_reports slot) =
                 \<lparr>report_used = False, pose = oposef_apply ext (fusion_from_model dev) mp,
                  score = sc\<rparr>
             \<and> n_pose_reports (delay_slots res ! i) = n_pose_reports slot + 1
             \<and> n_used_reports (delay_slots res ! i) = n_used_reports slot"
    if rejected "n_pose_reports slot < int max_sensors"
    using that n0 room by (simp add: u(3) up)
  have d: "delay_slots res = delay_slots dev" if "\<not> n_pose_reports slot < int max_sensors"
    using that by (rule u(4))
  have e: "last_observed_pose_ts res = device_time_ns dev
          \<and> (\<exists>call. ukf_fusion res = ukf_fusion dev @ [call])" if "\<not> rejected"
    using that by (simp add: u(1,2) up)
  show ?thesis using a b c d e by blast
qed

theorem model_pose_update_position_gate_witness:
  "(let dev = example_device 0 300 200
                [example_slot 0 1 True 100 1 1, example_slot 1 0 False 0 0 0,
                 example_slot 2 0 False 0 0 0];
        sc = \<lparr>match_flags = {RIFT_POSE_MATCH_ORIENT}\<rparr>;
        res = fst (rift_tracked_device_model_pose_update example_ext 4 dev
                (example_exposure 100 0 True) sc unit_pose)
    in get_matching_delay_slot dev (example_dev_info 100 0 True) = Some 0
     \<and> ukf_fusion res = ukf_fusion dev
     \<and> last_observed_pose_ts res = 200
     \<and> pose_reports (delay_slots res ! 0) ! 1 = \<lparr>report_used = False, pose = unit_pose, score = sc\<rparr>
     \<and> n_pose_reports (delay_slots res ! 0) = 2
     \<and> n_used_reports (delay_slots res ! 0) = 1)"
proof -
  let ?d = "example_device 0 300 200
                [example_slot 0 1 True 100 1 1, example_slot 1 0 False 0 0 0,
                 example_slot 2 0 False 0 0 0]"
  let ?e = "example_exposure 100 0 True"
  let ?sc = "\<lparr>match_flags = {RIFT_POSE_MATCH_ORIENT}\<rparr>"
  have idx: "index ?d < n_devices ?e" by (simp add: example_defs)
  have m: "get_matching_delay_slot ?d (devices ?e ! index ?d) = Some 0"
    by (simp add: get_matching_delay_slot_def example_defs)
  have len: "length (delay_slots ?d) = NUM_POSE_DELAY_SLOTS" by (simp add: example_defs)
  have n0: "0 \<le> n_pose_reports (delay_slots ?d ! 0)" by (simp add: example_defs)
  have room: "length (pose_reports (delay_slots ?d ! 0)) = 4" by (simp add: example_defs)
  note t = model_pose_update_position_gate [OF idx m len n0 room,
      where ext = example_ext and sc = ?sc and mp = unit_pose]
  have rej: "had_pose_lock (devices ?e ! index ?d) \<and> \<not> POSE_HAS_FLAGS ?sc RIFT_POSE_MATCH_POSITION
       \<and> last_observed_pose_ts ?d > info_device_time_ns (devices ?e ! index ?d)"
    by (simp add: example_defs POSE_HAS_FLAGS_def)
  have a: "ukf_fusion (fst (rift_tracked_device_model_pose_update example_ext 4 ?d ?e ?sc unit_pose))
             = ukf_fusion ?d"
    using t [THEN conjunct1] rej by blast
  have b: "last_observed_pose_ts (fst (rift_tracked_device_model_pose_update example_ext 4 ?d ?e ?sc unit_pose)) = 200
     \<and> pose_reports (delay_slots (fst (rift_tracked_device_model_pose_update example_ext 4 ?d ?e ?sc unit_pose)) ! 0) ! 1
          = \<lparr>report_used = False, pose = unit_pose, score = ?sc\<rparr>
     \<and> n_pose_reports (delay_slots (fst (rift_tracked_device_model_pose_update example_ext 4 ?d ?e ?sc unit_pose)) ! 0) = 2
     \<and> n_used_reports (delay_slots (fst (rift_tracked_device_model_pose_update example_ext 4 ?d ?e ?sc unit_pose)) ! 0) = 1"
    using t [THEN conjunct2, THEN conjunct1, rule_format, OF rej]
    by (simp add: example_defs)
  show ?thesis using m a b by (simp add: Let_def example_defs)
qed

text \<open>
  A rejected report for a slot that already holds \<^verbatim>\<open>RIFT_MAX_SENSORS\<close> reports is not
  recorded.
\<close>

theorem model_pose_update_position_gate_counterexample:
  "(let dev = example_device 0 300 200
                [example_slot 0 1 True 100 4 1, example_slot 1 0 False 0 0 0,
                 example_slot 2 0 False 0 0 0];
        sc = \<lparr>match_flags = {RIFT_POSE_MATCH_ORIENT}\<rparr>;
        res = fst (rift_tracked_device_model_pose_update example_ext 4 dev
                (example_exposure 100 0 True) sc unit_pose)
    in get_matching_delay_slot dev (example_dev_info 100 0 True) = Some 0
     \<and> \<not> update_position dev (example_dev_info 100 0 True) sc
     \<and> delay_slots res = delay_slots dev
     \<and> n_pose_reports (delay_slots res ! 0) = 4
     \<and> \<lparr>report_used = False, pose = unit_pose, score = sc\<rparr>
          \<notin> set (pose_reports (delay_slots res ! 0)))"
  by (simp add: pose_update_eval example_defs)

subsection \<open>The view pose\<close>

text \<open>
  What \<^verbatim>\<open>rift_tracked_device_get_view_pose\<close> hands to the output filter when
  \<open>device_time_ns\<close> is later than \<open>last_reported_pose\<close>.  The input pose always carries
  the orientation of the Kalman filter's estimate, taken to the device frame.  From
  500000000 ns without a position observation on, it carries the previously reported
  position, and velocity and acceleration are the rotated zero vector; before that it
  carries the Kalman filter's position, and velocity and acceleration are the rotated
  Kalman values.  The pose reported is whatever the output filter returns.
\<close>

lemma view_pose_filter_input:
  fixes dev :: "('v, 'q) rift_tracked_device_priv" and ext efr and filt :: 'f
  defines "q \<equiv> orient (device_from_fusion dev)"
    and "kal \<equiv> rift_kalman_6dof_get_pose_at ext (ukf_fusion dev) (device_time_ns dev)"
  defines "device_pose \<equiv> oposef_apply ext (device_from_fusion dev) (fst kal)"
    and "imu_vel \<equiv> fst (snd kal)"
    and "imu_accel \<equiv> fst (snd (snd kal))"
  defines "prior \<equiv> (reported_pose dev)\<lparr>orient := orient device_pose\<rparr>"
  assumes newer: "device_time_ns dev > last_reported_pose dev"
  shows "case rift_tracked_device_get_view_pose ext efr dev filt of
           (dev', filt', view_pose, vel, accel, ang_vel) \<Rightarrow>
             view_pose = reported_pose dev'
           \<and> last_reported_pose dev' = device_time_ns dev
           \<and> (500000000 \<le> device_time_ns dev - last_observed_pose_ts dev \<longrightarrow>
                 (filt', view_pose) =
                   efr filt (device_time_ns dev)
                     \<lparr>pos = pos (reported_pose dev), orient = orient device_pose\<rparr> prior
               \<and> vel = oquatf_get_rotated ext q (vec3f_zero ext)
               \<and> accel = oquatf_get_rotated ext q (vec3f_zero ext))
           \<and> (device_time_ns dev - last_observed_pose_ts dev < 500000000 \<longrightarrow>
                 (filt', view_pose) = efr filt (device_time_ns dev) device_pose prior
               \<and> vel = oquatf_get_rotated ext q imu_vel
               \<and> accel = oquatf_get_rotated ext q imu_accel)"
proof -
  obtain p v a w pe re where k: "kal = (p, v, a, w, pe, re)"
    by (metis prod_cases6)
  show ?thesis
  proof (cases "500000000 \<le> device_time_ns dev - last_observed_pose_ts dev")
    case True
    obtain f1 out where e: "efr filt (device_time_ns dev)
                     \<lparr>pos = pos (reported_pose dev), orient = orient device_pose\<rparr> prior = (f1, out)"
      by (cases "efr filt (device_time_ns dev)
                     \<lparr>pos = pos (reported_pose dev), orient = orient device_pose\<rparr> prior")
    from True have nl: "\<not> device_time_ns dev - last_observed_pose_ts dev < 500000000"
      by (simp add: not_less)
    show ?thesis
      using True nl newer e k [unfolded kal_def]
      unfolding q_def device_pose_def imu_vel_def imu_accel_def
        prior_def kal_def
      by (simp add: rift_tracked_device_get_view_pose_def Let_def lost_threshold
          posef_pos_update)
  next
    case False
    obtain f1 out where e: "efr filt (device_time_ns dev) device_pose prior = (f1, out)"
      by (cases "efr filt (device_time_ns dev) device_pose prior")
    from False have nle: "(500000000 \<le> device_time_ns dev - last_observed_pose_ts dev) = False"
      by simp
    show ?thesis
      using newer e k [unfolded kal_def]
      unfolding q_def device_pose_def imu_vel_def imu_accel_def
        prior_def kal_def
      by (simp add: rift_tracked_device_get_view_pose_def Let_def lost_threshold
          posef_pos_update nle)
  qed
qed


lemma view_pose_filter_input_example:
  "last_reported_pose (int_device 1000000000 0 500000000)
     < device_time_ns (int_device 1000000000 0 500000000)
   \<and> (case rift_tracked_device_get_view_pose int_ext int_filter
              (int_device 1000000000 0 500000000) 0 of
         (dev', filt', view_pose, vel, accel, ang_vel) \<Rightarrow>
           view_pose = \<lparr>pos = 10, orient = 10\<rparr> \<and> vel = 1 \<and> accel = 1)
   \<and> (case rift_tracked_device_get_view_pose int_ext int_filter
              (int_device 1000000000 0 500000001) 0 of
         (dev', filt', view_pose, vel, accel, ang_vel) \<Rightarrow>
           view_pose = \<lparr>pos = 45, orient = 10\<rparr> \<and> vel = 4 \<and> accel = 5)"
proof -
  have n1: "last_reported_pose (int_device 1000000000 0 500000000)
              < device_time_ns (int_device 1000000000 0 500000000)"
    and n2: "last_reported_pose (int_device 1000000000 0 500000001)
              < device_time_ns (int_device 1000000000 0 500000001)"
    by (simp_all add: int_example_defs)
  have a: "case rift_tracked_device_get_view_pose int_ext int_filter
              (int_device 1000000000 0 500000000) 0 of
         (dev', filt', view_pose, vel, accel, ang_vel) \<Rightarrow>
           view_pose = \<lparr>pos = 10, orient = 10\<rparr> \<and> vel = 1 \<and> accel = 1"
    using view_pose_filter_input [OF n1, where ext = int_ext and efr = int_filter and filt = 0]
    by (simp add: int_example_defs split: prod.splits)
  have b: "case rift_tracked_device_get_view_pose int_ext int_filter
              (int_device 1000000000 0 500000001) 0 of
         (dev', filt', view_pose, vel, accel, ang_vel) \<Rightarrow>
           view_pose = \<lparr>pos = 45, orient = 10\<rparr> \<and> vel = 4 \<and> accel = 5"
    using view_pose_filter_input [OF n2, where ext = int_ext and efr = int_filter and filt = 0]
    by (simp add: int_example_defs split: prod.splits)
  show ?thesis using n1 a b by simp
qed

subsection \<open>Releasing a delay slot\<close>

text \<open>
  Claim C9.  Let an exposure's slot be matched and claimed \<open>k\<close> times.  After \<open>max k 1\<close>
  releases the slot is free (\<open>use_count = 0\<close>, not valid); any number of further
  releases leaves the device as it is, and a release through any copy of the exposure info
  naming that slot changes neither the device nor the copy.  Along the way \<open>use_count\<close>
  is never negative, and the filter's release operation is called exactly once, by the
  release that frees the slot.
\<close>

theorem delay_slot_release_idempotent:
  fixes dev :: "('v, 'q) rift_tracked_device_priv" and dev_info i k
  defines "freed \<equiv> release_times (max k 1) dev dev_info"
  assumes len: "length (delay_slots dev) = NUM_POSE_DELAY_SLOTS"
    and m: "get_matching_delay_slot dev dev_info = Some i"
    and uc: "use_count (delay_slots dev ! i) = int k"
  shows "(\<forall>n. release_times (max k 1 + n) dev dev_info = freed)
       \<and> (\<forall>info'. fusion_slot info' = fusion_slot dev_info \<longrightarrow>
             rift_tracked_device_exposure_release_locked freed info' = (freed, info'))
       \<and> use_count (delay_slots freed ! i) = 0 \<and> \<not> valid (delay_slots freed ! i)
       \<and> (\<forall>n. 0 \<le> use_count (delay_slots (release_times n dev dev_info) ! i))
       \<and> (\<forall>n. ukf_fusion (release_times n dev dev_info) =
             (if n < max k 1 then ukf_fusion dev
              else ukf_fusion dev @ [Release_delay_slot (slot_id (delay_slots dev ! i))]))"
proof -
  have i: "i < length (delay_slots dev)" and fs: "i = nat (fusion_slot dev_info)"
    using matching_SomeD(1,3) [OF m] len by simp_all
  have fr: "freed = dev\<lparr>ukf_fusion := ukf_fusion dev @ [Release_delay_slot (slot_id (delay_slots dev ! i))],
               delay_slots := (delay_slots dev)
                 [i := (delay_slots dev ! i)\<lparr>use_count := 0, valid := False\<rparr>]\<rparr>"
    unfolding freed_def by (rule release_times_exact [OF m len uc])
  have slot: "use_count (delay_slots freed ! i) = 0" "\<not> valid (delay_slots freed ! i)"
    using i by (simp_all add: fr)
  have none: "get_matching_delay_slot freed info' = None"
    if "fusion_slot info' = fusion_slot dev_info" for info'
    using slot(2) that fs by (intro matching_invalid) simp
  have noop: "rift_tracked_device_exposure_release_locked freed info' = (freed, info')"
    if "fusion_slot info' = fusion_slot dev_info" for info'
    by (rule release_unmatched [OF none [OF that]])
  have stay: "release_times (max k 1 + n) dev dev_info = freed" for n
    unfolding release_times_add freed_def [symmetric]
    by (rule release_times_unmatched [OF none]) simp
  have early: "ukf_fusion (release_times n dev dev_info) = ukf_fusion dev \<and>
               0 \<le> use_count (delay_slots (release_times n dev dev_info) ! i)"
    if "n < max k 1" for n
  proof (cases "n < k")
    case True
    then show ?thesis using release_times_partial [OF m len uc True] by simp
  next
    case False
    with that have "n = 0" by simp
    then show ?thesis using uc by simp
  qed
  have late: "release_times n dev dev_info = freed" if "\<not> n < max k 1" for n
  proof -
    from that obtain d where "n = max k 1 + d"
      by (metis le_Suc_ex not_less)
    then show ?thesis using stay by simp
  qed
  have nonneg: "0 \<le> use_count (delay_slots (release_times n dev dev_info) ! i)" for n
    using early [of n] late [of n] slot(1) by (cases "n < max k 1") simp_all
  have trace: "ukf_fusion (release_times n dev dev_info) =
             (if n < max k 1 then ukf_fusion dev
              else ukf_fusion dev @ [Release_delay_slot (slot_id (delay_slots dev ! i))])" for n
    using early [of n] late [of n] by (cases "n < max k 1") (simp_all add: fr)
  show ?thesis using stay noop slot nonneg trace by blast
qed

theorem delay_slot_release_idempotent_witness:
  "(let dev = example_device 1 1000 0
       [example_slot 0 2 True 10 0 0, example_slot 1 0 False 0 0 0, example_slot 2 0 False 0 0 0];
        dev_info = example_dev_info 10 0 False
    in get_matching_delay_slot dev dev_info = Some 0
     \<and> use_count (delay_slots dev ! 0) = 2
     \<and> release_times 5 dev dev_info = release_times 2 dev dev_info
     \<and> rift_tracked_device_exposure_release_locked (release_times 2 dev dev_info) dev_info
           = (release_times 2 dev dev_info, dev_info)
     \<and> delay_slots (release_times 2 dev dev_info) ! 0 = example_slot 0 0 False 10 0 0
     \<and> ukf_fusion (release_times 1 dev dev_info) = []
     \<and> ukf_fusion (release_times 5 dev dev_info) = [Release_delay_slot 0])"
proof -
  let ?d = "example_device 1 1000 0
       [example_slot 0 2 True 10 0 0, example_slot 1 0 False 0 0 0, example_slot 2 0 False 0 0 0]"
  let ?i = "example_dev_info 10 0 False"
  have len: "length (delay_slots ?d) = NUM_POSE_DELAY_SLOTS"
    by (simp add: example_defs)
  have m: "get_matching_delay_slot ?d ?i = Some 0"
    by (simp add: get_matching_delay_slot_def example_defs)
  have uc: "use_count (delay_slots ?d ! 0) = int 2"
    by (simp add: example_defs)
  have m2: "max (2::nat) 1 = 2" by simp
  note t = delay_slot_release_idempotent [OF len m uc, unfolded m2]
  have a: "release_times 5 ?d ?i = release_times 2 ?d ?i"
    using t [THEN conjunct1, rule_format, of 3] by (simp del: release_times.simps)
  have b: "rift_tracked_device_exposure_release_locked (release_times 2 ?d ?i) ?i
           = (release_times 2 ?d ?i, ?i)"
    using t [THEN conjunct2, THEN conjunct1, rule_format, of ?i]
    by (simp del: release_times.simps)
  have c: "ukf_fusion (release_times 1 ?d ?i) = []" "ukf_fusion (release_times 5 ?d ?i) = [Release_delay_slot 0]"
    using t [THEN conjunct2, THEN conjunct2, THEN conjunct2, THEN conjunct2, THEN conjunct2, rule_format, of 1]
      t [THEN conjunct2, THEN conjunct2, THEN conjunct2, THEN conjunct2, THEN conjunct2, rule_format, of 5]
    by (simp_all add: example_defs del: release_times.simps)
  have d: "delay_slots (release_times 2 ?d ?i) ! 0 = example_slot 0 0 False 10 0 0"
    by (simp add: numeral_2_eq_2 rift_tracked_device_exposure_release_locked_def
        get_matching_delay_slot_def example_defs Let_def)
  show ?thesis using m uc a b c d by (simp add: Let_def del: release_times.simps)
qed

section \<open>Properties of the UVC stream assembler\<close>

subsection \<open>Auxiliary facts\<close>

lemma error_bit: "(w AND 0x40 \<noteq> 0) = bit w 6" for w :: u8
proof -
  have "(0x40 :: u8) = 2 ^ 6" by simp
  then show ?thesis by (simp only: and_exp_eq_0_iff_not_bit) simp
qed

lemmas uvc_example_defs = example_frame_def example_stream_def example_payload_def
  bHeaderLength_def bmHeaderInfo_def dwPresentationTime_def

lemmas uvc_eval = process_payload_def payload_frame_start_def payload_collect_def Let_def

lemma payload_frame_start_bound:
  assumes "payload_frame_start now fid pts_val stream = Inr s2"
    and "frame_collected stream \<le> frame_size stream"
  shows "frame_collected s2 \<le> frame_size s2"
  using assms
  by (auto simp: payload_frame_start_def Let_def split: if_splits option.splits)

lemma payload_frame_start_bound_pts:
  assumes "payload_frame_start now fid pts_val (stream\<lparr>cur_pts := v\<rparr>) = Inr s2"
    and "frame_collected stream \<le> frame_size stream"
  shows "frame_collected s2 \<le> frame_size s2"
  using assms by (intro payload_frame_start_bound [OF assms(1)]) simp

lemma payload_collect_bound:
  assumes "payload_collect frame_cb stream payload payload_len is_eof = Inr s'"
    and "frame_collected stream \<le> frame_size stream"
  shows "frame_collected s' \<le> frame_size s'"
proof (cases "cur_frame stream")
  case None
  with assms show ?thesis by (simp add: payload_collect_def)
next
  case (Some frame)
  show ?thesis
  proof (cases "skip_frame stream \<or> int (frame_collected stream) + payload_len > int (frame_size stream)")
    case True
    with assms Some show ?thesis by (auto simp: payload_collect_def split: if_splits)
  next
    case False
    with assms Some have pl: "0 \<le> payload_len"
      by (auto simp: payload_collect_def split: if_splits)
    from False have le: "frame_collected stream + nat payload_len \<le> frame_size stream"
      using pl by linarith
    show ?thesis
      using assms(1) Some False pl le
      by (auto simp: payload_collect_def Let_def split: if_splits option.splits)
  qed
qed

lemma process_payload_bound:
  assumes "process_payload frame_cb now stream payload len = Inr s'"
    and "frame_collected stream \<le> frame_size stream"
  shows "frame_collected s' \<le> frame_size s'"
  using assms
  by (auto simp: process_payload_def Let_def split: sum.splits if_splits
      intro: payload_collect_bound payload_frame_start_bound payload_frame_start_bound_pts)


lemma payload_frame_start_returns:
  assumes "wf_stream stream"
  shows "\<exists>s2. payload_frame_start now fid pts_val stream = Inr s2"
proof (cases "cur_frame stream")
  case None
  show ?thesis
  proof (cases "n_free_frames stream > 0")
    case True
    then have "nat (n_free_frames stream - 1) < length (free_frames stream)"
      using assms unfolding wf_stream_def by linarith
    then have "data_size (free_frames stream ! nat (n_free_frames stream - 1)) = frame_size stream"
      using assms by (simp add: wf_stream_def list_all_length)
    with None True show ?thesis by (simp add: payload_frame_start_def Let_def)
  next
    case False
    with None show ?thesis by (simp add: payload_frame_start_def Let_def)
  qed
next
  case (Some f)
  then have "data_size f = frame_size stream"
    using assms by (simp add: wf_stream_def)
  with Some show ?thesis by (simp add: payload_frame_start_def Let_def)
qed

lemma payload_collect_returns:
  assumes "0 \<le> payload_len"
  shows "\<exists>s'. payload_collect frame_cb stream payload payload_len is_eof = Inr s'"
  using assms by (simp add: payload_collect_def Let_def split: option.splits)

lemma wf_stream_cur_pts [simp]: "wf_stream (stream\<lparr>cur_pts := v\<rparr>) = wf_stream stream"
  by (simp add: wf_stream_def split: option.splits)

lemma process_payload_returns:
  assumes "wf_stream stream" and "len = 0 \<or> 12 \<le> len"
  shows "\<exists>s'. process_payload frame_cb now stream payload len = Inr s'"
proof (cases "len = 0 \<or> len = 12 \<or> bHeaderLength payload \<noteq> 12 \<or> bmHeaderInfo payload AND 0x40 \<noteq> 0")
  case True
  then show ?thesis by (auto simp: process_payload_def Let_def)
next
  case False
  with assms(2) have pl: "0 \<le> int len - uint (bHeaderLength payload)" by simp
  define pts_val where "pts_val = (if bmHeaderInfo payload AND 0x04 \<noteq> 0 then dwPresentationTime payload else - 1)"
  define s1 where "s1 = (if bmHeaderInfo payload AND 0x04 \<noteq> 0 \<and> frame_collected stream \<noteq> 0
                            \<and> pts_val \<noteq> cur_pts stream
                         then stream\<lparr>cur_pts := pts_val\<rparr> else stream)"
  have "wf_stream s1" using assms(1) by (simp add: s1_def)
  then obtain s2 where
    fs: "payload_frame_start now (uint (bmHeaderInfo payload AND 0x01)) pts_val s1 = Inr s2"
    using payload_frame_start_returns by blast
  obtain s' where "payload_collect frame_cb s2 payload (int len - uint (bHeaderLength payload))
               (bmHeaderInfo payload AND 0x02 \<noteq> 0) = Inr s'"
    using payload_collect_returns [OF pl] by blast
  with fs False have "process_payload frame_cb now stream payload len = Inr s'"
    unfolding process_payload_def Let_def pts_val_def [symmetric] s1_def [symmetric]
    by simp
  then show ?thesis by blast
qed

lemma payload_frame_start_props:
  fixes stream :: rift_sensor_uvc_stream and fid :: int
  assumes wf: "wf_stream stream"
  defines "held \<equiv> (case cur_frame stream of Some f \<Rightarrow> Some f
                    | None \<Rightarrow> if fid \<noteq> frame_id stream \<and> n_free_frames stream > 0
                              then Some (free_frames stream ! nat (n_free_frames stream - 1))
                              else None)"
  shows "\<exists>s2. payload_frame_start now fid pts_val (stream\<lparr>cur_pts := v\<rparr>) = Inr s2
           \<and> frame_collected s2 = (if fid \<noteq> frame_id stream then 0 else frame_collected stream)
           \<and> frame_size s2 = frame_size stream
           \<and> map_option data (cur_frame s2) = map_option data held
           \<and> skip_frame s2 = (if fid \<noteq> frame_id stream then held = None else skip_frame stream)"
proof (cases "cur_frame stream")
  case None
  show ?thesis
  proof (cases "n_free_frames stream > 0")
    case True
    then have "nat (n_free_frames stream - 1) < length (free_frames stream)"
      using wf unfolding wf_stream_def by linarith
    then have "data_size (free_frames stream ! nat (n_free_frames stream - 1)) = frame_size stream"
      using wf by (simp add: wf_stream_def list_all_length)
    with None True show ?thesis by (simp add: payload_frame_start_def Let_def held_def)
  next
    case False
    with None show ?thesis by (simp add: payload_frame_start_def Let_def held_def)
  qed
next
  case (Some f)
  then have "data_size f = frame_size stream"
    using wf by (simp add: wf_stream_def)
  with Some show ?thesis by (simp add: payload_frame_start_def Let_def held_def)
qed

lemma process_payload_accepted:
  assumes "12 < len" and "bHeaderLength payload = 12" and "\<not> bit (bmHeaderInfo payload) 6"
  shows "process_payload frame_cb now stream payload len =
           (let pts_val = (if bmHeaderInfo payload AND 0x04 \<noteq> 0
                           then dwPresentationTime payload else - 1);
                s1 = (if bmHeaderInfo payload AND 0x04 \<noteq> 0 \<and> frame_collected stream \<noteq> 0
                         \<and> pts_val \<noteq> cur_pts stream
                      then stream\<lparr>cur_pts := pts_val\<rparr> else stream)
            in case payload_frame_start now (uint (bmHeaderInfo payload AND 0x01)) pts_val s1 of
                 Inl e \<Rightarrow> Inl e
               | Inr s2 \<Rightarrow> payload_collect frame_cb s2 payload (int (len - 12))
                             (bmHeaderInfo payload AND 0x02 \<noteq> 0))"
proof -
  from assms(1) have "int len - 12 = int (len - 12)" by simp
  with assms show ?thesis
    by (simp add: process_payload_def Let_def error_bit cong: sum.case_cong)
qed

lemma payload_collect_idle:
  assumes "cur_frame s2 = None \<or> skip_frame s2
           \<or> frame_collected s2 + n > frame_size s2"
  shows "payload_collect frame_cb s2 payload (int n) is_eof = Inr s2"
  using assms by (auto simp: payload_collect_def split: option.splits)

lemma payload_collect_append:
  fixes s2 :: rift_sensor_uvc_stream and frame payload and n :: nat
  assumes "cur_frame s2 = Some frame" and "\<not> skip_frame s2"
    and "frame_collected s2 + n \<le> frame_size s2"
  defines "frame1 \<equiv> frame\<lparr>data := (\<lambda>k. if frame_collected s2 \<le> k \<and> k < frame_collected s2 + n
                                           then payload ! (12 + (k - frame_collected s2))
                                           else data frame k)\<rparr>"
  defines "s3 \<equiv> s2\<lparr>cur_frame := Some frame1, frame_collected := frame_collected s2 + n\<rparr>"
  shows "payload_collect frame_cb s2 payload (int n) is_eof =
           Inr (if frame_collected s2 + n = frame_size s2
                then (case frame_cb of
                        Some cb \<Rightarrow> (cb s3 frame1)\<lparr>cur_frame := None, frame_collected := 0\<rparr>
                      | None \<Rightarrow> s3\<lparr>frame_collected := 0\<rparr>)
                else if is_eof then s3\<lparr>frame_collected := 0\<rparr> else s3)"
proof -
  from assms(3) have "\<not> int (frame_collected s2) + int n > int (frame_size s2)" by linarith
  with assms(1,2) show ?thesis
    unfolding frame1_def s3_def
    by (simp add: payload_collect_def Let_def split: option.splits)
qed



lemma payload_frame_start_wf:
  assumes "wf_stream stream" and "payload_frame_start now fid pts_val stream = Inr s2"
  shows "wf_stream s2"
proof (cases "cur_frame stream")
  case None
  show ?thesis
  proof (cases "n_free_frames stream > 0")
    case True
    then have "nat (n_free_frames stream - 1) < length (free_frames stream)"
      using assms(1) unfolding wf_stream_def by linarith
    then have "data_size (free_frames stream ! nat (n_free_frames stream - 1)) = frame_size stream"
      using assms(1) by (simp add: wf_stream_def list_all_length)
    with None True assms show ?thesis
      by (auto simp: payload_frame_start_def Let_def wf_stream_def split: if_splits)
  next
    case False
    with None assms show ?thesis
      by (auto simp: payload_frame_start_def Let_def wf_stream_def split: if_splits)
  qed
next
  case (Some f)
  with assms show ?thesis
    by (auto simp: payload_frame_start_def Let_def wf_stream_def split: if_splits)
qed

lemma payload_collect_wf:
  assumes "wf_stream stream"
    and "payload_collect frame_cb stream payload payload_len is_eof = Inr s'"
    and "\<And>cb s f. frame_cb = Some cb \<Longrightarrow> wf_stream s \<Longrightarrow> wf_stream (cb s f)"
  shows "wf_stream s'"
proof (cases "cur_frame stream")
  case None
  with assms show ?thesis by (simp add: payload_collect_def)
next
  case (Some frame)
  define frame1 where "frame1 = frame\<lparr>data := (\<lambda>k. if frame_collected stream \<le> k
                                              \<and> k < frame_collected stream + nat payload_len
                                           then payload ! (12 + (k - frame_collected stream))
                                           else data frame k)\<rparr>"
  define s1 where "s1 = stream\<lparr>cur_frame := Some frame1,
                               frame_collected := frame_collected stream + nat payload_len\<rparr>"
  have w1: "wf_stream s1"
    using assms(1) Some by (simp add: wf_stream_def s1_def frame1_def)
  have upd: "wf_stream (s\<lparr>frame_collected := k\<rparr>)" if "wf_stream s" for s k
    using that by (simp add: wf_stream_def split: option.splits)
  have clr: "wf_stream (s\<lparr>cur_frame := None, frame_collected := k\<rparr>)" if "wf_stream s" for s k
    using that by (simp add: wf_stream_def)
  have "s' = stream \<or> s' = s1 \<or> s' = s1\<lparr>frame_collected := 0\<rparr>
        \<or> (\<exists>cb. frame_cb = Some cb \<and> s' = (cb s1 frame1)\<lparr>cur_frame := None, frame_collected := 0\<rparr>)"
    using assms(2) Some unfolding s1_def frame1_def
    by (auto simp: payload_collect_def Let_def split: if_splits option.splits)
  then show ?thesis
    using assms(1) w1 upd [OF w1] clr assms(3) by auto
qed

lemma process_payload_wf:
  assumes "wf_stream stream"
    and "process_payload frame_cb now stream payload len = Inr s'"
    and "\<And>cb s f. frame_cb = Some cb \<Longrightarrow> wf_stream s \<Longrightarrow> wf_stream (cb s f)"
  shows "wf_stream s'"
proof (cases "len = 0 \<or> len = 12 \<or> bHeaderLength payload \<noteq> 12 \<or> bmHeaderInfo payload AND 0x40 \<noteq> 0")
  case True
  then have "process_payload frame_cb now stream payload len = Inr stream"
    by (auto simp: process_payload_def Let_def)
  with assms(1,2) show ?thesis by simp
next
  case False
  define pts_val where "pts_val = (if bmHeaderInfo payload AND 0x04 \<noteq> 0 then dwPresentationTime payload else - 1)"
  define s1 where "s1 = (if bmHeaderInfo payload AND 0x04 \<noteq> 0 \<and> frame_collected stream \<noteq> 0
                            \<and> pts_val \<noteq> cur_pts stream
                         then stream\<lparr>cur_pts := pts_val\<rparr> else stream)"
  have w1: "wf_stream s1" using assms(1) by (simp add: s1_def)
  from assms(2) False obtain s2 where
    fs: "payload_frame_start now (uint (bmHeaderInfo payload AND 0x01)) pts_val s1 = Inr s2"
    and pc: "payload_collect frame_cb s2 payload (int len - uint (bHeaderLength payload))
               (bmHeaderInfo payload AND 0x02 \<noteq> 0) = Inr s'"
    unfolding process_payload_def Let_def pts_val_def [symmetric] s1_def [symmetric]
    by (auto split: sum.splits)
  show ?thesis
    by (rule payload_collect_wf [OF payload_frame_start_wf [OF w1 fs] pc]) (rule assms(3))
qed

subsection \<open>Rejected payloads\<close>

text \<open>
  Claim C6.  A payload that is empty, that is exactly 12 bytes long, whose
  \<^verbatim>\<open>bHeaderLength\<close> is not 12, or whose \<^verbatim>\<open>bmHeaderInfo\<close> has bit 6 (the error bit) set is
  processed without a fault and leaves the whole stream state as it was.
\<close>

theorem process_payload_rejects_unchanged:
  assumes "len = 0 \<or> len = 12 \<or> bHeaderLength payload \<noteq> 12 \<or> bit (bmHeaderInfo payload) 6"
  shows "process_payload frame_cb now stream payload len = Inr stream"
  using assms by (auto simp: process_payload_def Let_def error_bit)

theorem process_payload_rejects_unchanged_witness:
  "bit (bmHeaderInfo (example_payload 0x42 100)) 6
   \<and> process_payload None 5 (example_stream 3000 False (Some example_frame))
        (example_payload 0x42 100) 112 = Inr (example_stream 3000 False (Some example_frame))
   \<and> process_payload None 5 (example_stream 3000 False (Some example_frame))
        (example_payload 0x02 0) 12 = Inr (example_stream 3000 False (Some example_frame))"
proof -
  have e: "bit (bmHeaderInfo (example_payload 0x42 100)) 6"
    by (simp add: uvc_example_defs)
  show ?thesis
    using e process_payload_rejects_unchanged [of 112 "example_payload 0x42 100" None 5
        "example_stream 3000 False (Some example_frame)"]
      process_payload_rejects_unchanged [of 12 "example_payload 0x02 0" None 5
        "example_stream 3000 False (Some example_frame)"]
    by simp
qed

subsection \<open>The collected byte count\<close>

text \<open>
  Claim C7, as amended.  A well-formed stream with \<open>frame_collected \<le> frame_size\<close>
  receives a payload of length 0 or at least 12.  Then \<^verbatim>\<open>process_payload\<close> returns, and
  \<open>frame_collected \<le> frame_size\<close> holds for the stream it returns.  Write \<open>n\<close> for the
  size of the payload body, \<open>c0\<close> for the count the append starts from (0 if the parity
  bit of the payload starts a new frame, \<open>frame_collected\<close> otherwise) and \<open>held\<close> for
  the frame it writes to (the current frame, or the one taken from the free frames at a
  frame start).  For an accepted payload (longer than 12 bytes, \<^verbatim>\<open>bHeaderLength\<close> 12, error
  bit clear):

  \<^item> if \<open>c0 + n > frame_size\<close> the body is dropped: \<open>frame_collected\<close> is \<open>c0\<close> and the
    frame buffer is as it was;

  \<^item> if the stream is collecting (it holds a frame and is not skipping) and
    \<open>c0 + n = frame_size\<close>, the body is copied to the offsets from \<open>c0\<close> on and
    \<open>frame_collected\<close> is 0 afterwards; if a frame callback is registered, it has been
    called with the stream and the completed frame and \<open>cur_frame\<close> is cleared; if none
    is registered, \<open>cur_frame\<close> keeps the completed frame;

  \<^item> if the stream is collecting and \<open>c0 + n < frame_size\<close>, the body is copied and
    \<open>frame_collected\<close> is \<open>c0 + n\<close>, or 0 if the EOF bit is set.
\<close>

theorem process_payload_frame_bound:
  fixes stream :: rift_sensor_uvc_stream and payload :: "u8 list" and len :: nat
    and frame_cb now
  defines "n \<equiv> len - 12"
    and "new_frame \<equiv> uint (bmHeaderInfo payload AND 0x01) \<noteq> frame_id stream"
    and "is_eof \<equiv> bmHeaderInfo payload AND 0x02 \<noteq> 0"
    and "accepted \<equiv> 12 < len \<and> bHeaderLength payload = 12 \<and> \<not> bit (bmHeaderInfo payload) 6"
  defines "c0 \<equiv> (if new_frame then 0 else frame_collected stream)"
    and "held \<equiv> (case cur_frame stream of Some f \<Rightarrow> Some f
                  | None \<Rightarrow> if new_frame \<and> n_free_frames stream > 0
                            then Some (free_frames stream ! nat (n_free_frames stream - 1))
                            else None)"
  defines "collecting \<equiv> accepted \<and> held \<noteq> None \<and> (new_frame \<or> \<not> skip_frame stream)"
    and "appended \<equiv> (\<lambda>frame k. if c0 \<le> k \<and> k < c0 + n then payload ! (12 + (k - c0))
                                 else data frame k)"
  assumes wf: "wf_stream stream"
    and le: "frame_collected stream \<le> frame_size stream"
    and len: "len = 0 \<or> 12 \<le> len"
  shows "\<exists>s'. process_payload frame_cb now stream payload len = Inr s'
           \<and> frame_collected s' \<le> frame_size s'
           \<and> (accepted \<and> c0 + n > frame_size stream \<longrightarrow>
                 frame_collected s' = c0
               \<and> map_option data (cur_frame s') = map_option data held)
           \<and> (collecting \<and> c0 + n = frame_size stream \<longrightarrow>
                 frame_collected s' = 0
               \<and> (case frame_cb of
                     None \<Rightarrow> map_option data (cur_frame s') = map_option appended held
                   | Some cb \<Rightarrow>
                       cur_frame s' = None
                     \<and> (\<exists>s3 frame1. s' = (cb s3 frame1)\<lparr>cur_frame := None, frame_collected := 0\<rparr>
                           \<and> cur_frame s3 = Some frame1
                           \<and> frame_collected s3 = frame_size stream
                           \<and> frame_size s3 = frame_size stream
                           \<and> Some (data frame1) = map_option appended held)))
           \<and> (collecting \<and> c0 + n < frame_size stream \<longrightarrow>
                 frame_collected s' = (if is_eof then 0 else c0 + n)
               \<and> map_option data (cur_frame s') = map_option appended held)"
proof (cases accepted)
  case False
  with len have "len = 0 \<or> len = 12 \<or> bHeaderLength payload \<noteq> 12 \<or> bit (bmHeaderInfo payload) 6"
    unfolding accepted_def by linarith
  then have "process_payload frame_cb now stream payload len = Inr stream"
    by (auto simp: process_payload_def Let_def error_bit)
  with False le show ?thesis by (simp add: collecting_def)
next
  case True
  define pts_val where "pts_val = (if bmHeaderInfo payload AND 0x04 \<noteq> 0
                                   then dwPresentationTime payload else - 1)"
  define s1 where "s1 = (if bmHeaderInfo payload AND 0x04 \<noteq> 0 \<and> frame_collected stream \<noteq> 0
                             \<and> pts_val \<noteq> cur_pts stream
                          then stream\<lparr>cur_pts := pts_val\<rparr> else stream)"
  obtain v where s1: "s1 = stream\<lparr>cur_pts := v\<rparr>"
  proof (cases "s1 = stream")
    case True
    then have "s1 = stream\<lparr>cur_pts := cur_pts stream\<rparr>" by simp
    then show ?thesis by (rule that)
  next
    case False
    then have "s1 = stream\<lparr>cur_pts := pts_val\<rparr>" by (simp add: s1_def split: if_splits)
    then show ?thesis by (rule that)
  qed
  have wf1: "wf_stream s1" using wf by (simp add: s1)
  have "\<exists>s2. payload_frame_start now (uint (bmHeaderInfo payload AND 0x01)) pts_val s1 = Inr s2
           \<and> frame_collected s2 = c0 \<and> frame_size s2 = frame_size stream
           \<and> map_option data (cur_frame s2) = map_option data held
           \<and> skip_frame s2 = (if new_frame then held = None else skip_frame stream)"
    using payload_frame_start_props [OF wf, of now "uint (bmHeaderInfo payload AND 0x01)" pts_val v]
    unfolding s1 c0_def held_def new_frame_def by simp
  then obtain s2 where fs: "payload_frame_start now (uint (bmHeaderInfo payload AND 0x01)) pts_val s1 = Inr s2"
    and c2: "frame_collected s2 = c0"
    and z2: "frame_size s2 = frame_size stream"
    and d2: "map_option data (cur_frame s2) = map_option data held"
    and k2: "skip_frame s2 = (if new_frame then held = None else skip_frame stream)"
    by blast
  have pp: "process_payload frame_cb now stream payload len =
              payload_collect frame_cb s2 payload (int n) is_eof"
    using True fs
    unfolding accepted_def n_def is_eof_def pts_val_def s1_def
    by (simp add: process_payload_accepted Let_def)
  have c0le: "c0 \<le> frame_size stream" using le by (simp add: c0_def)
  show ?thesis
  proof (cases "cur_frame s2 = None \<or> skip_frame s2 \<or> frame_collected s2 + n > frame_size s2")
    case idle: True
    have r: "process_payload frame_cb now stream payload len = Inr s2"
      using pp payload_collect_idle [OF idle] by simp
    have nc: "\<not> (collecting \<and> c0 + n \<le> frame_size stream)"
    proof
      assume a: "collecting \<and> c0 + n \<le> frame_size stream"
      then have "held \<noteq> None" and "new_frame \<or> \<not> skip_frame stream"
        by (simp_all add: collecting_def)
      then have "cur_frame s2 \<noteq> None" and "\<not> skip_frame s2"
        using d2 k2 by (auto split: if_splits)
      with idle a c2 z2 show False by simp
    qed
    show ?thesis
      using r c2 z2 d2 c0le nc by auto
  next
    case False
    then obtain frame where cf: "cur_frame s2 = Some frame" and ns: "\<not> skip_frame s2"
      and fit: "frame_collected s2 + n \<le> frame_size s2"
      by auto
    from d2 cf obtain hf where hf: "held = Some hf" and hd: "data hf = data frame"
      by (cases held) auto
    define frame1 where
      "frame1 = frame\<lparr>data := (\<lambda>k. if frame_collected s2 \<le> k \<and> k < frame_collected s2 + n
                                     then payload ! (12 + (k - frame_collected s2))
                                     else data frame k)\<rparr>"
    define s3 where
      "s3 = s2\<lparr>cur_frame := Some frame1, frame_collected := frame_collected s2 + n\<rparr>"
    have f1: "data frame1 = appended hf"
      unfolding frame1_def appended_def hd c2 by simp
    have s3: "cur_frame s3 = Some frame1" "frame_collected s3 = c0 + n"
      "frame_size s3 = frame_size stream"
      by (simp_all add: s3_def c2 z2)
    have r: "process_payload frame_cb now stream payload len =
           Inr (if c0 + n = frame_size stream
                then (case frame_cb of
                        Some cb \<Rightarrow> (cb s3 frame1)\<lparr>cur_frame := None, frame_collected := 0\<rparr>
                      | None \<Rightarrow> s3\<lparr>frame_collected := 0\<rparr>)
                else if is_eof then s3\<lparr>frame_collected := 0\<rparr> else s3)"
      using pp payload_collect_append [OF cf ns fit, of frame_cb payload is_eof]
      unfolding frame1_def s3_def c2 z2 by simp
    have lt: "c0 + n \<noteq> frame_size stream \<Longrightarrow> c0 + n < frame_size stream"
      using fit c2 z2 by simp
    show ?thesis
    proof (cases "c0 + n = frame_size stream")
      case full: True
      show ?thesis
      proof (cases frame_cb)
        case None
        with r full s3 f1 hf show ?thesis by simp
      next
        case (Some cb)
        have "\<exists>t frame2. (cb s3 frame1)\<lparr>cur_frame := None, frame_collected := 0\<rparr>
                  = (cb t frame2)\<lparr>cur_frame := None, frame_collected := 0\<rparr>
               \<and> cur_frame t = Some frame2 \<and> frame_collected t = frame_size stream
               \<and> frame_size t = frame_size stream \<and> Some (data frame2) = map_option appended held"
          using s3 f1 hf full by (intro exI [of _ s3] exI [of _ frame1]) simp
        with r full Some show ?thesis by simp
      qed
    next
      case part: False
      with r lt [OF part] s3 f1 hf show ?thesis by simp
    qed
  qed
qed

theorem process_payload_frame_bound_witness:
  "(let stream = example_stream 357972 False (Some example_frame);
        full = example_stream 360000 False (Some example_frame);
        payload = example_payload 0x00 2988;
        cb = Some (\<lambda>s f. s)
    in wf_stream stream \<and> frame_collected stream \<le> frame_size stream
     \<and> wf_stream full \<and> frame_collected full \<le> frame_size full
     \<and> (\<exists>s'. process_payload cb 7 stream payload 3000 = Inr s'
               \<and> frame_collected s' = 0 \<and> cur_frame s' = None)
     \<and> (\<exists>s'. process_payload cb 7 full payload 3000 = Inr s'
               \<and> frame_collected s' = 360000
               \<and> map_option data (cur_frame s') = Some (data example_frame)))"
proof -
  let ?s = "example_stream 357972 False (Some example_frame)"
  let ?f = "example_stream 360000 False (Some example_frame)"
  let ?p = "example_payload 0x00 2988"
  let ?cb = "Some (\<lambda>s f. s) :: (rift_sensor_uvc_stream \<Rightarrow> ohmd_video_frame \<Rightarrow> rift_sensor_uvc_stream) option"
  have wf: "wf_stream ?s" "wf_stream ?f" by (simp_all add: wf_stream_def uvc_example_defs)
  have le: "frame_collected ?s \<le> frame_size ?s" "frame_collected ?f \<le> frame_size ?f"
    by (simp_all add: uvc_example_defs)
  have len: "(3000::nat) = 0 \<or> 12 \<le> (3000::nat)" by simp
  have a: "\<exists>s'. process_payload ?cb 7 ?s ?p 3000 = Inr s'
               \<and> frame_collected s' = 0 \<and> cur_frame s' = None"
    using process_payload_frame_bound [OF wf(1) le(1) len, where payload = ?p and frame_cb = ?cb
        and now = 7]
    by (auto simp: uvc_example_defs)
  have b: "\<exists>s'. process_payload ?cb 7 ?f ?p 3000 = Inr s'
               \<and> frame_collected s' = 360000
               \<and> map_option data (cur_frame s') = Some (data example_frame)"
    using process_payload_frame_bound [OF wf(2) le(2) len, where payload = ?p and frame_cb = ?cb
        and now = 7]
    by (auto simp: uvc_example_defs)
  show ?thesis using wf le a b by (simp add: Let_def)
qed

text \<open>
  With no frame callback registered, the payload that completes the frame resets
  \<open>frame_collected\<close> but leaves \<open>cur_frame\<close> set.  And a payload of 5 bytes whose first
  byte is 12 passes the header checks and reaches the copy with a body length of -7.
\<close>

theorem process_payload_frame_bound_counterexample:
  "(case process_payload None 7 (example_stream 357972 False (Some example_frame))
           (example_payload 0x00 2988) 3000 of
      Inr s' \<Rightarrow> frame_collected s' = 0 \<and> cur_frame s' \<noteq> None
    | Inl e \<Rightarrow> False)
 \<and> process_payload None 7 (example_stream 357972 False (Some example_frame))
      [12, 0x00, 0xE8, 0x03, 0] 5 = Inl Memcpy_negative_length"
  by (simp add: uvc_eval uvc_example_defs)

subsection \<open>The EOF bit\<close>

text \<open>
  Claim C8, evaluated.  A DK2 stream has collected 360000 of 360960 bytes and receives an
  accepted payload with the EOF bit set and a body of 2988 bytes.  The overflow test
  returns before the EOF test is reached: the stream is unchanged and
  \<open>frame_collected\<close> is still 360000, not 0.
\<close>

theorem eof_skipped_when_payload_dropped:
  "bmHeaderInfo (example_payload 0x02 2988) AND 0x02 \<noteq> 0
   \<and> process_payload (Some (\<lambda>s f. s)) 7 (example_stream 360000 False (Some example_frame))
        (example_payload 0x02 2988) 3000
       = Inr (example_stream 360000 False (Some example_frame))
   \<and> frame_collected (example_stream 360000 False (Some example_frame)) = 360000"
  by (simp add: uvc_eval uvc_example_defs)

end
